theory Spec2Isabelle
  imports
    Complex_Main
    "HOL-Library.Char_ord"
    "HOL-Library.List_Lexorder"
    "HOL-Library.Product_Lexorder"
begin

section \<open>Values of a float64 column\<close>

text \<open>
  A pandas float column holds IEEE doubles. The model keeps the three special values
  and takes every other value as an exact real: \<open>NaN\<close> is the missing value that
  \<open>fillna\<close>, \<open>dropna\<close> and \<open>notna\<close> test for, \<open>PInf\<close> and \<open>NInf\<close> arise from a division
  by zero and from \<open>log 0\<close>. Rounding, overflow and the sign of zero are not modelled.
\<close>

datatype fl = NaN | NInf | Fin real | PInf

fun fl_neg :: "fl \<Rightarrow> fl" where
  "fl_neg NaN = NaN"
| "fl_neg NInf = PInf"
| "fl_neg PInf = NInf"
| "fl_neg (Fin x) = Fin (- x)"

fun fl_add :: "fl \<Rightarrow> fl \<Rightarrow> fl" where
  "fl_add NaN b = NaN"
| "fl_add a NaN = NaN"
| "fl_add (Fin x) (Fin y) = Fin (x + y)"
| "fl_add PInf NInf = NaN"
| "fl_add NInf PInf = NaN"
| "fl_add PInf b = PInf"
| "fl_add a PInf = PInf"
| "fl_add NInf b = NInf"
| "fl_add a NInf = NInf"

definition fl_sub :: "fl \<Rightarrow> fl \<Rightarrow> fl" where
  "fl_sub a b = fl_add a (fl_neg b)"

definition inf_of_sign :: "real \<Rightarrow> fl" where
  "inf_of_sign x = (if 0 < x then PInf else if x < 0 then NInf else NaN)"

fun fl_mul :: "fl \<Rightarrow> fl \<Rightarrow> fl" where
  "fl_mul NaN b = NaN"
| "fl_mul a NaN = NaN"
| "fl_mul (Fin x) (Fin y) = Fin (x * y)"
| "fl_mul (Fin x) PInf = inf_of_sign x"
| "fl_mul (Fin x) NInf = inf_of_sign (- x)"
| "fl_mul PInf (Fin y) = inf_of_sign y"
| "fl_mul NInf (Fin y) = inf_of_sign (- y)"
| "fl_mul PInf PInf = PInf"
| "fl_mul NInf NInf = PInf"
| "fl_mul PInf NInf = NInf"
| "fl_mul NInf PInf = NInf"

fun fl_div :: "fl \<Rightarrow> fl \<Rightarrow> fl" where
  "fl_div NaN b = NaN"
| "fl_div a NaN = NaN"
| "fl_div (Fin x) (Fin y) = (if y = 0 then inf_of_sign x else Fin (x / y))"
| "fl_div (Fin x) b = Fin 0"
| "fl_div PInf (Fin y) = (if 0 \<le> y then PInf else NInf)"
| "fl_div NInf (Fin y) = (if 0 \<le> y then NInf else PInf)"
| "fl_div a b = NaN"

fun fl_abs :: "fl \<Rightarrow> fl" where
  "fl_abs NaN = NaN"
| "fl_abs (Fin x) = Fin \<bar>x\<bar>"
| "fl_abs a = PInf"

text \<open>\<open>np.log\<close>: minus infinity at zero, missing below zero.\<close>

fun fl_log :: "fl \<Rightarrow> fl" where
  "fl_log (Fin x) = (if 0 < x then Fin (ln x) else if x = 0 then NInf else NaN)"
| "fl_log PInf = PInf"
| "fl_log a = NaN"

text \<open>The comparison \<open>a < b\<close> of two column values: false as soon as one is missing.\<close>

fun fl_less :: "fl \<Rightarrow> fl \<Rightarrow> bool" where
  "fl_less NaN b = False"
| "fl_less a NaN = False"
| "fl_less (Fin x) (Fin y) = (x < y)"
| "fl_less NInf NInf = False"
| "fl_less NInf b = True"
| "fl_less a NInf = False"
| "fl_less PInf b = False"
| "fl_less a PInf = True"

definition notna :: "fl \<Rightarrow> bool" where
  "notna a = (a \<noteq> NaN)"

text \<open>\<open>a.fillna(b)\<close> on one cell.\<close>

definition fillna :: "fl \<Rightarrow> fl \<Rightarrow> fl" where
  "fillna a b = (if notna a then a else b)"

section \<open>Timestamps\<close>

text \<open>
  A timestamp is the number of days since 1970-01-01 (the monthly files carry dates
  without a time of day), so that comparing two timestamps and subtracting them is
  integer arithmetic, as it is on the int64 value pandas stores. The calendar fields
  \<open>.dt.year\<close> and \<open>.dt.month\<close> and the offset \<open>pd.DateOffset(months=6)\<close> go through the
  proleptic Gregorian calendar.
\<close>

type_synonym timestamp = int

definition civil_from_days :: "timestamp \<Rightarrow> int \<times> int \<times> int" where
  "civil_from_days z =
     (let z' = z + 719468;
          era = z' div 146097;
          doe = z' - era * 146097;
          yoe = (doe - doe div 1460 + doe div 36524 - doe div 146096) div 365;
          y = yoe + era * 400;
          doy = doe - (365 * yoe + yoe div 4 - yoe div 100);
          mp = (5 * doy + 2) div 153;
          d = doy - (153 * mp + 2) div 5 + 1;
          m = (if mp < 10 then mp + 3 else mp - 9)
      in (if m \<le> 2 then y + 1 else y, m, d))"

definition days_from_civil :: "int \<Rightarrow> int \<Rightarrow> int \<Rightarrow> timestamp" where
  "days_from_civil y m d =
     (let y' = (if m \<le> 2 then y - 1 else y);
          era = y' div 400;
          yoe = y' - era * 400;
          mp = (m + 9) mod 12;
          doy = (153 * mp + 2) div 5 + d - 1;
          doe = yoe * 365 + yoe div 4 - yoe div 100 + doy
      in era * 146097 + doe - 719468)"

definition dt_year :: "timestamp \<Rightarrow> int" where
  "dt_year t = fst (civil_from_days t)"

definition dt_month :: "timestamp \<Rightarrow> int" where
  "dt_month t = fst (snd (civil_from_days t))"

definition dt_day :: "timestamp \<Rightarrow> int" where
  "dt_day t = snd (snd (civil_from_days t))"

definition is_leap_year :: "int \<Rightarrow> bool" where
  "is_leap_year y = (y mod 4 = 0 \<and> (y mod 100 \<noteq> 0 \<or> y mod 400 = 0))"

definition days_in_month :: "int \<Rightarrow> int \<Rightarrow> int" where
  "days_in_month y m =
     (if m = 2 then (if is_leap_year y then 29 else 28)
      else if m = 4 \<or> m = 6 \<or> m = 9 \<or> m = 11 then 30 else 31)"

text \<open>
  \<open>t + pd.DateOffset(months=k)\<close>: the month moves by \<open>k\<close>, the year follows, and the day
  is cut to the length of the month reached.
\<close>

definition date_offset_months :: "int \<Rightarrow> timestamp \<Rightarrow> timestamp" where
  "date_offset_months k t =
     (let s = dt_month t + k;
          dy = s div 12;
          mo = s mod 12;
          y' = (if mo = 0 then dt_year t + dy - 1 else dt_year t + dy);
          m' = (if mo = 0 then 12 else mo)
      in days_from_civil y' m' (min (dt_day t) (days_in_month y' m')))"

section \<open>Compustat: book equity\<close>

text \<open>
  One row of \<open>comp_data\<close>, the columns of the query in \<open>get_stock_data\<close>. The columns of
  the Compustat table are written with the prefix \<open>c_\<close> where the joined panel has a
  column of the same name.
\<close>

record comp_raw =
  c_gvkey :: string
  datadate :: timestamp
  at_c :: fl
  lt :: fl
  pstk :: fl
  ceq :: fl
  txditc :: fl
  pstkrv :: fl
  seq :: fl
  pstkl :: fl

record comp_row = comp_raw +
  ps :: fl
  se :: fl
  c_be :: fl
  c_available_date :: timestamp

text \<open>
  Step 2 of \<open>calculate_indicators\<close>, row by row: \<open>txditc\<close> is filled with 0, then the
  columns \<open>ps\<close>, \<open>se\<close> and \<open>be\<close> are computed; the rows with \<open>be > 0\<close> are kept and
  receive the availability date, six months after \<open>datadate\<close>.
\<close>

definition txditc_filled :: "comp_raw \<Rightarrow> fl" where
  "txditc_filled r = fillna (txditc r) (Fin 0)"

definition ps_of :: "comp_raw \<Rightarrow> fl" where
  "ps_of r = fillna (fillna (fillna (pstkrv r) (pstkl r)) (pstk r)) (Fin 0)"

definition se_of :: "comp_raw \<Rightarrow> fl" where
  "se_of r =
     fillna (fillna (fillna (seq r) (fl_add (ceq r) (fillna (pstk r) (Fin 0))))
                    (fl_sub (at_c r) (lt r)))
            (Fin 0)"

definition be_of :: "comp_raw \<Rightarrow> fl" where
  "be_of r = fl_sub (fl_add (se_of r) (txditc_filled r)) (ps_of r)"

definition with_book_equity :: "comp_raw \<Rightarrow> comp_row" where
  "with_book_equity r =
     comp_raw.extend (r\<lparr>txditc := txditc_filled r\<rparr>)
       \<lparr>ps = ps_of r, se = se_of r, c_be = be_of r,
        c_available_date = date_offset_months 6 (datadate r)\<rparr>"

definition process_comp :: "comp_raw list \<Rightarrow> comp_row list" where
  "process_comp comp_data =
     map with_book_equity (filter (\<lambda>r. fl_less (Fin 0) (be_of r)) comp_data)"

text \<open>
  The first value of a list of candidates that is not missing, and a default when all
  are: the reading of "first non-missing of ..., else 0".
\<close>

fun first_non_missing :: "fl list \<Rightarrow> fl \<Rightarrow> fl" where
  "first_non_missing [] dflt = dflt"
| "first_non_missing (a # as) dflt = (if notna a then a else first_non_missing as dflt)"

section \<open>CRSP observations and the CCM link table\<close>

text \<open>
  One row of \<open>crsp_data\<close>. The columns \<open>permco\<close>, \<open>ticker\<close>, \<open>retx\<close> and \<open>vol\<close> are
  carried along unchanged and never read by \<open>calculate_indicators\<close>; they are left out.
\<close>

record crsp_row =
  permno :: int
  date :: timestamp
  ret :: fl
  prc :: fl
  shrout :: fl

text \<open>One row of the link table; its columns carry the prefix \<open>l_\<close>.\<close>

record link_rec =
  l_gvkey :: string
  lpermno :: int
  l_linktype :: string
  l_linkprim :: string
  l_linkdt :: "timestamp option"
  l_linkenddt :: "timestamp option"

text \<open>
  \<open>get_ccm_link\<close>: the \<open>WHERE\<close> clause of the query, then a missing end date becomes
  2024-12-31.
\<close>

definition get_ccm_link :: "link_rec list \<Rightarrow> link_rec list" where
  "get_ccm_link table =
     map (\<lambda>l. l\<lparr>l_linkenddt :=
                 Some (case l_linkenddt l of None \<Rightarrow> days_from_civil 2024 12 31 | Some d \<Rightarrow> d)\<rparr>)
       (filter (\<lambda>l. l_linktype l \<in> set [''LU'', ''LC''] \<and> l_linkprim l \<in> set [''P'', ''C''])
          table)"

text \<open>\<open>drop_duplicates(subset=key, keep='first')\<close>, and \<open>unique()\<close> as its special case.\<close>

fun drop_duplicates :: "('a \<Rightarrow> 'k) \<Rightarrow> 'a list \<Rightarrow> 'a list" where
  "drop_duplicates key [] = []"
| "drop_duplicates key (x # xs) = x # drop_duplicates key (filter (\<lambda>y. key y \<noteq> key x) xs)"

definition unique :: "'a list \<Rightarrow> 'a list" where
  "unique xs = drop_duplicates (\<lambda>x. x) xs"

record ccm_row = crsp_row +
  gvkey :: string
  linktype :: string
  linkprim :: string
  linkdt :: "timestamp option"
  linkenddt :: "timestamp option"

definition attach_link :: "crsp_row \<Rightarrow> link_rec \<Rightarrow> ccm_row" where
  "attach_link c l =
     crsp_row.extend c
       \<lparr>gvkey = l_gvkey l, linktype = l_linktype l, linkprim = l_linkprim l,
        linkdt = l_linkdt l, linkenddt = l_linkenddt l\<rparr>"

text \<open>
  Step 1: \<open>crsp_data.merge(ccm_link, on='permno', how='left')\<close>. Every observation is
  paired with every link record of its \<open>permno\<close>, in the order of the link table; an
  observation without a link record is kept once, with missing link columns.
\<close>

definition merge_link :: "crsp_row list \<Rightarrow> link_rec list \<Rightarrow> (crsp_row \<times> link_rec option) list" where
  "merge_link crsp_data ccm_link =
     concat (map (\<lambda>c. case filter (\<lambda>l. lpermno l = permno c) ccm_link of
                         [] \<Rightarrow> [(c, None)]
                       | ls \<Rightarrow> map (\<lambda>l. (c, Some l)) ls) crsp_data)"

text \<open>
  The filter \<open>date >= linkdt & date <= linkenddt & gvkey.notna()\<close>: a comparison with a
  missing date is false, and a row without a link record has no \<open>gvkey\<close>.
\<close>

definition link_contains :: "link_rec \<Rightarrow> timestamp \<Rightarrow> bool" where
  "link_contains l d =
     ((case l_linkdt l of None \<Rightarrow> False | Some a \<Rightarrow> a \<le> d) \<and>
      (case l_linkenddt l of None \<Rightarrow> False | Some b \<Rightarrow> d \<le> b))"

definition link_filter :: "(crsp_row \<times> link_rec option) list \<Rightarrow> ccm_row list" where
  "link_filter pairs =
     concat (map (\<lambda>(c, lo). case lo of
                               None \<Rightarrow> []
                             | Some l \<Rightarrow> if link_contains l (date c) then [attach_link c l] else [])
                 pairs)"

definition crsp_ccm_of :: "crsp_row list \<Rightarrow> link_rec list \<Rightarrow> ccm_row list" where
  "crsp_ccm_of crsp_data ccm_link = link_filter (merge_link crsp_data ccm_link)"

section \<open>The temporal join\<close>

text \<open>
  Step 3, before the join: both tables are sorted by key and date, then rows repeating a
  (key, date) pair are dropped, the first one kept.
\<close>

definition prepare_crsp_ccm :: "ccm_row list \<Rightarrow> ccm_row list" where
  "prepare_crsp_ccm rows =
     drop_duplicates (\<lambda>r. (gvkey r, date r)) (sort_key (\<lambda>r. (gvkey r, date r)) rows)"

definition prepare_comp :: "comp_row list \<Rightarrow> comp_row list" where
  "prepare_comp rows =
     drop_duplicates (\<lambda>c. (c_gvkey c, c_available_date c))
       (sort_key (\<lambda>c. (c_gvkey c, c_available_date c)) rows)"

record merged_row = ccm_row +
  be :: fl
  available_date :: "timestamp option"

definition matched :: "ccm_row \<Rightarrow> comp_row \<Rightarrow> merged_row" where
  "matched r c =
     ccm_row.extend r \<lparr>be = c_be c, available_date = Some (c_available_date c)\<rparr>"

definition with_be :: "ccm_row \<Rightarrow> fl \<Rightarrow> merged_row" where
  "with_be r b = ccm_row.extend r \<lparr>be = b, available_date = None\<rparr>"

definition unmatched :: "ccm_row \<Rightarrow> merged_row" where
  "unmatched r = with_be r NaN"

datatype join_error = SortCheckFailed | KeysNotSorted | NoMatch | EmptyResult

subsection \<open>Tier 1: \<open>merge_asof\<close>\<close>

text \<open>
  \<open>str.strip()\<close>: whitespace is removed at both ends. A \<open>char\<close> stands for a code point
  below 256; the code points in that range that Python takes as whitespace are 9 to 13,
  28 to 32, 133 (U+0085) and 160 (U+00A0).
\<close>

definition is_space :: "char \<Rightarrow> bool" where
  "is_space ch =
     (of_char ch \<in> set [9, 10, 11, 12, 13, 28, 29, 30, 31, 32, 133, 160 :: nat])"

definition strip :: "string \<Rightarrow> string" where
  "strip s = rev (dropWhile is_space (rev (dropWhile is_space s)))"

text \<open>\<open>groupby(key)[dt].is_monotonic_increasing.all()\<close>.\<close>

definition groups_monotonic :: "('a \<Rightarrow> string) \<Rightarrow> ('a \<Rightarrow> timestamp) \<Rightarrow> 'a list \<Rightarrow> bool" where
  "groups_monotonic key dt rows =
     list_all (\<lambda>g. sorted (map dt (filter (\<lambda>r. key r = g) rows))) (unique (map key rows))"

text \<open>
  The backward search of \<open>pd.merge_asof\<close> for one left row: the last row of the right
  table with the same key and a date not after the left date.
\<close>

definition asof_backward :: "comp_row list \<Rightarrow> string \<Rightarrow> timestamp \<Rightarrow> comp_row option" where
  "asof_backward right g d =
     (case filter (\<lambda>c. c_gvkey c = g \<and> c_available_date c \<le> d) right of
        [] \<Rightarrow> None
      | cs \<Rightarrow> Some (last cs))"

text \<open>
  \<open>pd.merge_asof(left, right, left_on='date', right_on='available_date', by='gvkey',
  direction='backward', tolerance=tol)\<close>. pandas raises \<open>ValueError\<close> unless the date
  column of each table is sorted over the whole table. Every left row is returned; a
  row without a match, or whose match is older than the tolerance, has a missing \<open>be\<close>.
\<close>

definition merge_asof :: "ccm_row list \<Rightarrow> comp_row list \<Rightarrow> int \<Rightarrow> join_error + merged_row list" where
  "merge_asof left right tol =
     (if sorted (map date left) \<and> sorted (map c_available_date right)
      then Inr (map (\<lambda>r. case asof_backward right (gvkey r) (date r) of
                           None \<Rightarrow> unmatched r
                         | Some c \<Rightarrow> if date r - c_available_date c \<le> tol then matched r c
                                     else unmatched r) left)
      else Inl KeysNotSorted)"

definition tier1 :: "ccm_row list \<Rightarrow> comp_row list \<Rightarrow> join_error + merged_row list" where
  "tier1 crsp_ccm comp_tab =
     (let crsp_clean = sort_key (\<lambda>r. (gvkey r, date r))
                         (map (\<lambda>r. r\<lparr>gvkey := strip (gvkey r)\<rparr>) crsp_ccm);
          comp_clean = sort_key (\<lambda>c. (c_gvkey c, c_available_date c))
                         (map (\<lambda>c. c\<lparr>c_gvkey := strip (c_gvkey c)\<rparr>) comp_tab)
      in if groups_monotonic gvkey date crsp_clean
            \<and> groups_monotonic c_gvkey c_available_date comp_clean
         then merge_asof crsp_clean comp_clean (365 * 5)
         else Inl SortCheckFailed)"

subsection \<open>Tier 2: a search per key\<close>

text \<open>
  \<open>np.searchsorted(a, v, side='right')\<close> on an array sorted in ascending order: the
  number of leading elements that are at most \<open>v\<close>.
\<close>

definition searchsorted_right :: "timestamp list \<Rightarrow> timestamp \<Rightarrow> nat" where
  "searchsorted_right a v = length (takeWhile (\<lambda>x. x \<le> v) a)"

text \<open>
  One turn of the loop over \<open>gvkey\<close>: the rows added to \<open>merged_list\<close> for this key. The
  index \<open>searchsorted - 1\<close> is valid when it is not negative.
\<close>

definition tier2_group :: "ccm_row list \<Rightarrow> comp_row list \<Rightarrow> string \<Rightarrow> merged_row list" where
  "tier2_group crsp_ccm comp_tab g =
     (let crsp_subset = sort_key date (filter (\<lambda>r. gvkey r = g) crsp_ccm);
          comp_subset = sort_key c_available_date (filter (\<lambda>c. c_gvkey c = g) comp_tab)
      in if comp_subset = [] then []
         else concat (map (\<lambda>r. let i = searchsorted_right (map c_available_date comp_subset) (date r)
                                in if i = 0 then [] else [matched r (comp_subset ! (i - 1))])
                          crsp_subset))"

definition tier2_rows :: "ccm_row list \<Rightarrow> comp_row list \<Rightarrow> merged_row list" where
  "tier2_rows crsp_ccm comp_tab =
     concat (map (tier2_group crsp_ccm comp_tab) (unique (map gvkey crsp_ccm)))"

definition tier2 :: "ccm_row list \<Rightarrow> comp_row list \<Rightarrow> join_error + merged_row list" where
  "tier2 crsp_ccm comp_tab =
     (if tier2_rows crsp_ccm comp_tab = [] then Inl NoMatch else Inr (tier2_rows crsp_ccm comp_tab))"

subsection \<open>Tier 3: the calendar year\<close>

text \<open>\<open>GroupBy.last()\<close> on one column of one group: the last value that is not missing.\<close>

definition last_notna :: "fl list \<Rightarrow> fl" where
  "last_notna xs = (case filter notna xs of [] \<Rightarrow> NaN | ys \<Rightarrow> last ys)"

definition comp_key_year :: "comp_row \<Rightarrow> string \<times> int" where
  "comp_key_year c = (c_gvkey c, dt_year (datadate c))"

text \<open>
  \<open>comp_yearly\<close>: one row per (gvkey, year of \<open>datadate\<close>), holding the \<open>be\<close> of the latest
  statement of that year.
\<close>

definition comp_yearly :: "comp_row list \<Rightarrow> ((string \<times> int) \<times> fl) list" where
  "comp_yearly comp_tab =
     (let s = sort_key (\<lambda>c. (c_gvkey c, dt_year (datadate c), datadate c)) comp_tab
      in map (\<lambda>k. (k, last_notna (map c_be (filter (\<lambda>c. comp_key_year c = k) s))))
             (sort (unique (map comp_key_year s))))"

definition tier3 :: "ccm_row list \<Rightarrow> comp_row list \<Rightarrow> join_error + merged_row list" where
  "tier3 crsp_ccm comp_tab =
     (let merged = concat (map (\<lambda>r. case filter (\<lambda>kb. fst kb = (gvkey r, dt_year (date r)))
                                            (comp_yearly comp_tab) of
                                     [] \<Rightarrow> [unmatched r]
                                   | ms \<Rightarrow> map (\<lambda>kb. with_be r (snd kb)) ms) crsp_ccm);
          merged' = filter (\<lambda>r. notna (be r)) merged
      in if merged' = [] then Inl EmptyResult else Inr merged')"

subsection \<open>The ladder\<close>

text \<open>
  A tier that raises hands over to the next one; the rows without \<open>be\<close> are dropped from
  whatever the ladder returns, and an empty panel ends \<open>calculate_indicators\<close>.
\<close>

definition join_ladder :: "ccm_row list \<Rightarrow> comp_row list \<Rightarrow> join_error + merged_row list" where
  "join_ladder crsp_ccm comp_tab =
     (case tier1 crsp_ccm comp_tab of
        Inr merged \<Rightarrow> Inr merged
      | Inl e1 \<Rightarrow> (case tier2 crsp_ccm comp_tab of
                    Inr merged \<Rightarrow> Inr merged
                  | Inl e2 \<Rightarrow> tier3 crsp_ccm comp_tab))"

definition temporal_join :: "ccm_row list \<Rightarrow> comp_row list \<Rightarrow> join_error + merged_row list" where
  "temporal_join crsp_ccm comp_tab =
     (case join_ladder crsp_ccm comp_tab of
        Inl e \<Rightarrow> Inl e
      | Inr merged \<Rightarrow>
          (let merged' = filter (\<lambda>r. notna (be r)) merged
           in if merged' = [] then Inl EmptyResult else Inr merged'))"

section \<open>Characteristics\<close>

text \<open>
  The columns added in step 4. The columns \<open>size\<close> and \<open>n\<close> of the source are \<open>size_c\<close>
  and \<open>n_c\<close> here. The final panel keeps the columns \<open>permno\<close>, \<open>date\<close>, \<open>year\<close>, \<open>month\<close>,
  \<open>ret\<close>, \<open>size\<close>, \<open>bm\<close>, \<open>mom\<close> and \<open>n\<close> of these rows.
\<close>

record ind_row = merged_row +
  prc_abs :: fl
  me :: fl
  bm :: fl
  size_c :: fl
  ret_lag1 :: fl
  ret_cumulative :: fl
  mom :: fl
  year :: int
  month :: int
  n_c :: nat

definition is_fin :: "fl \<Rightarrow> bool" where
  "is_fin a = (case a of Fin x \<Rightarrow> True | _ \<Rightarrow> False)"

definition fl_prod :: "fl list \<Rightarrow> fl" where
  "fl_prod xs = foldr fl_mul xs (Fin 1)"

text \<open>\<open>lambda x: (1 + x).prod() - 1\<close>; the product of a Series skips missing values.\<close>

definition compound :: "fl list \<Rightarrow> fl" where
  "compound x = fl_sub (fl_prod (map (fl_add (Fin 1)) (filter notna x))) (Fin 1)"

text \<open>
  \<open>rolling(window=w, min_periods=minp).apply(f)\<close> at position \<open>j\<close> of one group. pandas
  first replaces infinite values by missing ones; the window holds the last \<open>w\<close> values up
  to and including position \<open>j\<close>, and \<open>f\<close> is applied when at least \<open>minp\<close> of them are
  observations.
\<close>

definition prep_value :: "fl \<Rightarrow> fl" where
  "prep_value a = (if is_fin a then a else NaN)"

definition rolling_window :: "nat \<Rightarrow> 'a list \<Rightarrow> nat \<Rightarrow> 'a list" where
  "rolling_window w xs j = drop (Suc j - w) (take (Suc j) xs)"

definition rolling_apply :: "nat \<Rightarrow> nat \<Rightarrow> (fl list \<Rightarrow> fl) \<Rightarrow> fl list \<Rightarrow> nat \<Rightarrow> fl" where
  "rolling_apply w minp f xs j =
     (let win = rolling_window w (map prep_value xs) j
      in if minp \<le> length (filter notna win) then f win else NaN)"

text \<open>\<open>shift(1)\<close> at position \<open>j\<close> of one group.\<close>

definition shift1 :: "fl list \<Rightarrow> nat \<Rightarrow> fl" where
  "shift1 xs j = (if j = 0 then NaN else xs ! (j - 1))"

text \<open>
  The momentum of the observation at position \<open>j\<close> of the return series of one \<open>permno\<close>:
  \<open>ret_cumulative - ret_lag1\<close>.
\<close>

definition mom_at :: "fl list \<Rightarrow> nat \<Rightarrow> fl" where
  "mom_at rets j = fl_sub (rolling_apply 12 8 compound rets j) (shift1 rets j)"

text \<open>
  Row \<open>i\<close> of \<open>df\<close>, which is sorted by (permno, date): its group is the rows of the same
  \<open>permno\<close> in the order of \<open>df\<close>, and \<open>n\<close> counts the rows of its (year, month).
\<close>

definition group_series :: "merged_row list \<Rightarrow> nat \<Rightarrow> fl list" where
  "group_series df i = map ret (filter (\<lambda>r. permno r = permno (df ! i)) df)"

definition group_pos :: "merged_row list \<Rightarrow> nat \<Rightarrow> nat" where
  "group_pos df i = length (filter (\<lambda>r. permno r = permno (df ! i)) (take i df))"

definition year_month :: "timestamp \<Rightarrow> int \<times> int" where
  "year_month t = (dt_year t, dt_month t)"

definition indicator_row :: "merged_row list \<Rightarrow> nat \<Rightarrow> ind_row" where
  "indicator_row df i =
     (let r = df ! i;
          me' = fl_mul (fl_abs (prc r)) (shrout r);
          rets = group_series df i;
          j = group_pos df i
      in merged_row.extend r
           \<lparr>prc_abs = fl_abs (prc r),
            me = me',
            bm = fl_div (fl_mul (be r) (Fin 1000)) me',
            size_c = fl_log me',
            ret_lag1 = shift1 rets j,
            ret_cumulative = rolling_apply 12 8 compound rets j,
            mom = mom_at rets j,
            year = dt_year (date r),
            month = dt_month (date r),
            n_c = length (filter (\<lambda>r'. year_month (date r') = year_month (date r)) df)\<rparr>)"

definition indicators :: "merged_row list \<Rightarrow> ind_row list" where
  "indicators merged =
     (let df = sort_key (\<lambda>r. (permno r, date r)) merged
      in map (indicator_row df) [0..<length df])"

text \<open>\<open>dropna(subset=cols)\<close>: the rows in which none of the columns is missing.\<close>

definition dropna :: "('a \<Rightarrow> fl) list \<Rightarrow> 'a list \<Rightarrow> 'a list" where
  "dropna cols rows = filter (\<lambda>r. list_all (\<lambda>col. notna (col r)) cols) rows"

definition final_stats_of :: "ind_row list \<Rightarrow> ind_row list" where
  "final_stats_of df = dropna [ret, size_c, bm] df"

text \<open>\<open>calculate_indicators\<close>, from the three fetched tables to \<open>final_stats\<close>.\<close>

datatype calc_error = NoValidLink | JoinFailed join_error

definition calculate_indicators ::
  "crsp_row list \<Rightarrow> comp_raw list \<Rightarrow> link_rec list \<Rightarrow> calc_error + ind_row list" where
  "calculate_indicators crsp_data comp_data ccm_link =
     (let crsp_ccm = crsp_ccm_of crsp_data ccm_link
      in if crsp_ccm = [] then Inl NoValidLink
         else (case temporal_join (prepare_crsp_ccm crsp_ccm)
                      (prepare_comp (process_comp comp_data)) of
                 Inl e \<Rightarrow> Inl (JoinFailed e)
               | Inr merged \<Rightarrow> Inr (final_stats_of (indicators merged))))"

section \<open>Cross-sectional statistics\<close>

definition extended_percentiles :: "nat list" where
  "extended_percentiles =
     [1, 2, 3, 4, 5, 10, 15, 20, 25, 30, 35, 40, 45, 50,
      55, 60, 65, 70, 75, 80, 85, 90, 95, 96, 97, 98, 99]"

record cs_stats =
  count :: nat
  mean :: fl
  std :: fl
  min_c :: fl
  max_c :: fl
  skew :: fl
  kurt :: fl
  pcts :: "(nat \<times> fl) list"

definition fl_sum :: "fl list \<Rightarrow> fl" where
  "fl_sum xs = foldr fl_add xs (Fin 0)"

definition fl_mean :: "fl list \<Rightarrow> fl" where
  "fl_mean xs = fl_div (fl_sum xs) (Fin (real (length xs)))"

fun fl_min :: "fl list \<Rightarrow> fl" where
  "fl_min [] = NaN"
| "fl_min [a] = a"
| "fl_min (a # b # bs) = (let m = fl_min (b # bs) in if fl_less m a then m else a)"

fun fl_max :: "fl list \<Rightarrow> fl" where
  "fl_max [] = NaN"
| "fl_max [a] = a"
| "fl_max (a # b # bs) = (let m = fl_max (b # bs) in if fl_less a m then m else a)"

text \<open>Sorting a column without missing values in ascending order.\<close>

fun fl_insort :: "fl \<Rightarrow> fl list \<Rightarrow> fl list" where
  "fl_insort a [] = [a]"
| "fl_insort a (b # bs) = (if fl_less b a then b # fl_insort a bs else a # b # bs)"

definition fl_sort :: "fl list \<Rightarrow> fl list" where
  "fl_sort xs = foldr fl_insort xs []"

datatype py_error = IndexError

text \<open>
  The interpolation of numpy between two neighbours \<open>a\<close> and \<open>b\<close> at the fraction \<open>t\<close>:
  \<open>a + (b - a) * t\<close>, replaced by \<open>b - (b - a) * (1 - t)\<close> where \<open>t >= 0.5\<close>.
\<close>

definition lerp :: "fl \<Rightarrow> fl \<Rightarrow> real \<Rightarrow> fl" where
  "lerp a b t =
     (if t < 1 / 2 then fl_add a (fl_mul (fl_sub b a) (Fin t))
      else fl_sub b (fl_mul (fl_sub b a) (Fin (1 - t))))"

text \<open>
  The linear method on the sorted sample \<open>a\<close>: the virtual index \<open>(n - 1) * q / 100\<close>, its
  two neighbours and the interpolation between them.
\<close>

definition linear_quantile :: "fl list \<Rightarrow> real \<Rightarrow> fl" where
  "linear_quantile a q =
     (let n = length a;
          vi = real (n - 1) * q / 100;
          lo = nat \<lfloor>vi\<rfloor>;
          hi = min (lo + 1) (n - 1);
          t = vi - real lo
      in lerp (a ! lo) (a ! hi) t)"

text \<open>
  \<open>np.percentile(data, q)\<close> with the default linear method. On an empty sample it raises
  \<open>IndexError\<close>.
\<close>

definition percentile :: "fl list \<Rightarrow> real \<Rightarrow> py_error + fl" where
  "percentile data q =
     (if data = [] then Inl IndexError else Inr (linear_quantile (fl_sort data) q))"

text \<open>A loop whose body may raise: the first exception ends it.\<close>

fun collect :: "('e + 'a) list \<Rightarrow> 'e + 'a list" where
  "collect [] = Inr []"
| "collect (x # xs) =
     (case x of
        Inl e \<Rightarrow> Inl e
      | Inr v \<Rightarrow> (case collect xs of Inl e \<Rightarrow> Inl e | Inr vs \<Rightarrow> Inr (v # vs)))"

text \<open>
  \<open>calculate_cross_sectional_stats(group)\<close>. The estimators \<open>std\<close>, \<open>skew\<close> and \<open>kurtosis\<close>
  of pandas are parameters.
\<close>

definition calculate_cross_sectional_stats ::
  "(fl list \<Rightarrow> fl) \<Rightarrow> (fl list \<Rightarrow> fl) \<Rightarrow> (fl list \<Rightarrow> fl) \<Rightarrow> fl list \<Rightarrow> py_error + cs_stats" where
  "calculate_cross_sectional_stats std_f skew_f kurt_f grp =
     (let data = filter notna grp
      in if length data = 0
         then Inr \<lparr>count = 0, mean = NaN, std = NaN, min_c = NaN, max_c = NaN, skew = NaN,
                   kurt = NaN, pcts = map (\<lambda>p. (p, NaN)) extended_percentiles\<rparr>
         else (case collect (map (\<lambda>p. case percentile data (real p) of
                                         Inl e \<Rightarrow> Inl e
                                       | Inr v \<Rightarrow> Inr (p, v)) extended_percentiles) of
                 Inl e \<Rightarrow> Inl e
               | Inr vals \<Rightarrow>
                   Inr \<lparr>count = length data,
                        mean = fl_mean data,
                        std = std_f data,
                        min_c = fl_min data,
                        max_c = fl_max data,
                        skew = (if 3 \<le> length data then skew_f data else NaN),
                        kurt = (if 4 \<le> length data then kurt_f data else NaN),
                        pcts = vals\<rparr>))"

text \<open>
  \<open>final_stats.groupby(['year', 'month'])[var].apply(calculate_cross_sectional_stats)
  .unstack()\<close>: one row of statistics per (year, month) of the panel, in ascending order.
\<close>

definition monthly_cross_sectional ::
  "(fl list \<Rightarrow> fl) \<Rightarrow> (fl list \<Rightarrow> fl) \<Rightarrow> (fl list \<Rightarrow> fl) \<Rightarrow> (ind_row \<Rightarrow> fl) \<Rightarrow> ind_row list
     \<Rightarrow> py_error + ((int \<times> int) \<times> cs_stats) list" where
  "monthly_cross_sectional std_f skew_f kurt_f var final =
     collect (map (\<lambda>k. case calculate_cross_sectional_stats std_f skew_f kurt_f
                              (map var (filter (\<lambda>r. (year r, month r) = k) final)) of
                         Inl e \<Rightarrow> Inl e
                       | Inr st \<Rightarrow> Inr (k, st))
                  (sort (unique (map (\<lambda>r. (year r, month r)) final))))"

section \<open>Notions used in the statements\<close>

text \<open>The link records that qualify for an observation: same \<open>permno\<close>, interval around its date.\<close>

definition qualifying :: "link_rec list \<Rightarrow> crsp_row \<Rightarrow> link_rec list" where
  "qualifying ccm_link c =
     filter (\<lambda>l. lpermno l = permno c \<and> link_contains l (date c)) ccm_link"

text \<open>The rows a stage returns, none when it failed.\<close>

definition rows_of :: "'e + 'a list \<Rightarrow> 'a list" where
  "rows_of res = (case res of Inl e \<Rightarrow> [] | Inr rows \<Rightarrow> rows)"

text \<open>A matched statement that is at most \<open>tol\<close> days older than the observation.\<close>

definition within_tolerance :: "int \<Rightarrow> merged_row \<Rightarrow> bool" where
  "within_tolerance tol r =
     (case available_date r of None \<Rightarrow> False | Some a \<Rightarrow> date r - a \<le> tol)"

text \<open>
  The statements of the company of a row that are available on the date of the row, in
  the order of the table.
\<close>

definition candidates :: "comp_row list \<Rightarrow> ccm_row \<Rightarrow> comp_row list" where
  "candidates comp_tab r =
     filter (\<lambda>c. c_gvkey c = gvkey r \<and> c_available_date c \<le> date r) comp_tab"

text \<open>The keys of a table carry no whitespace at either end.\<close>

definition keys_stripped :: "('a \<Rightarrow> string) \<Rightarrow> 'a list \<Rightarrow> bool" where
  "keys_stripped key rows = list_all (\<lambda>r. strip (key r) = key r) rows"

text \<open>The comparison \<open>a <= b\<close> of two column values: false as soon as one is missing.\<close>

definition fl_le :: "fl \<Rightarrow> fl \<Rightarrow> bool" where
  "fl_le a b = (fl_less a b \<or> (a = b \<and> notna a))"

text \<open>The percentile of level \<open>p\<close> in the statistics of a group, when they were computed.\<close>

definition percentile_of :: "py_error + cs_stats \<Rightarrow> nat \<Rightarrow> fl option" where
  "percentile_of res p = (case res of Inl e \<Rightarrow> None | Inr st \<Rightarrow> map_of (pcts st) p)"

text \<open>
  The company of a row has a statement that is available on the date of the row and at
  most \<open>tol\<close> days older.
\<close>

definition has_fresh :: "int \<Rightarrow> comp_row list \<Rightarrow> ccm_row \<Rightarrow> bool" where
  "has_fresh tol comp_tab r =
     list_ex (\<lambda>s. c_gvkey s = gvkey r \<and> c_available_date s \<le> date r
                   \<and> date r - c_available_date s \<le> tol) comp_tab"

text \<open>
  The linear interpolation of \<open>linear_quantile\<close> on a list of reals: the value at the
  virtual index \<open>u\<close>.
\<close>

definition lerp_at :: "real list \<Rightarrow> real \<Rightarrow> real" where
  "lerp_at ys u =
     ys ! nat \<lfloor>u\<rfloor>
       + (ys ! min (nat \<lfloor>u\<rfloor> + 1) (length ys - 1) - ys ! nat \<lfloor>u\<rfloor>) * (u - real (nat \<lfloor>u\<rfloor>))"

section \<open>Example tables\<close>

text \<open>
  One security, observed on 2015-01-30, with two link records whose intervals both hold
  that date: a primary link to company 001000 and a link of priority C to company 002000.
\<close>

definition ex_crsp :: "crsp_row list" where
  "ex_crsp =
     [\<lparr>permno = 10001, date = days_from_civil 2015 1 30, ret = Fin (1 / 100), prc = Fin 10,
       shrout = Fin 1000\<rparr>]"

definition ex_link :: "link_rec list" where
  "ex_link =
     [\<lparr>l_gvkey = ''001000'', lpermno = 10001, l_linktype = ''LU'', l_linkprim = ''P'',
       l_linkdt = Some (days_from_civil 2000 1 1), l_linkenddt = None\<rparr>,
      \<lparr>l_gvkey = ''002000'', lpermno = 10001, l_linktype = ''LC'', l_linkprim = ''C'',
       l_linkdt = Some (days_from_civil 2010 1 1), l_linkenddt = None\<rparr>]"

text \<open>A statement of company \<open>g\<close> dated \<open>d\<close> that reports \<open>seq = v\<close>, \<open>at\<close> and \<open>lt\<close> and nothing else.\<close>

definition statement :: "string \<Rightarrow> timestamp \<Rightarrow> real \<Rightarrow> comp_raw" where
  "statement g d v =
     \<lparr>c_gvkey = g, datadate = d, at_c = Fin 900, lt = Fin 300, pstk = NaN, ceq = NaN,
      txditc = NaN, pstkrv = NaN, seq = Fin v, pstkl = NaN\<rparr>"

definition ex_comp_two :: "comp_raw list" where
  "ex_comp_two =
     [statement ''001000'' (days_from_civil 2013 12 31) 200,
      statement ''002000'' (days_from_civil 2013 12 31) 600]"

definition ex_comp_one :: "comp_raw list" where
  "ex_comp_one = [statement ''001000'' (days_from_civil 2013 12 31) 200]"

text \<open>
  Two securities of two companies, observed on 2020-08-31 and on 2020-07-31; the only
  statement is the one of company 001000 for 2020-12-31, available on 2021-06-30.
\<close>

definition ex3_crsp :: "crsp_row list" where
  "ex3_crsp =
     [\<lparr>permno = 10001, date = days_from_civil 2020 8 31, ret = Fin (1 / 100), prc = Fin 10,
       shrout = Fin 1000\<rparr>,
      \<lparr>permno = 10002, date = days_from_civil 2020 7 31, ret = Fin (1 / 100), prc = Fin 20,
       shrout = Fin 1000\<rparr>]"

definition ex3_link :: "link_rec list" where
  "ex3_link =
     [\<lparr>l_gvkey = ''001000'', lpermno = 10001, l_linktype = ''LU'', l_linkprim = ''P'',
       l_linkdt = Some (days_from_civil 2000 1 1), l_linkenddt = None\<rparr>,
      \<lparr>l_gvkey = ''002000'', lpermno = 10002, l_linktype = ''LU'', l_linkprim = ''P'',
       l_linkdt = Some (days_from_civil 2000 1 1), l_linkenddt = None\<rparr>]"

definition ex3_comp :: "comp_raw list" where
  "ex3_comp = [statement ''001000'' (days_from_civil 2020 12 31) 100]"

text \<open>
  One security of one company, observed on 2020-07-31 and on 2027-01-29, with one
  statement for 2019-12-31 and one for 2020-12-31.
\<close>

definition ex4_crsp :: "crsp_row list" where
  "ex4_crsp =
     [\<lparr>permno = 10001, date = days_from_civil 2020 7 31, ret = Fin (1 / 100), prc = Fin 10,
       shrout = Fin 1000\<rparr>,
      \<lparr>permno = 10001, date = days_from_civil 2027 1 29, ret = Fin (1 / 100), prc = Fin 10,
       shrout = Fin 1000\<rparr>]"

definition ex4_link :: "link_rec list" where
  "ex4_link =
     [\<lparr>l_gvkey = ''001000'', lpermno = 10001, l_linktype = ''LU'', l_linkprim = ''P'',
       l_linkdt = Some (days_from_civil 2000 1 1),
       l_linkenddt = Some (days_from_civil 2030 12 31)\<rparr>]"

definition ex4_comp :: "comp_raw list" where
  "ex4_comp =
     [statement ''001000'' (days_from_civil 2019 12 31) 100,
      statement ''001000'' (days_from_civil 2020 12 31) 200]"

text \<open>
  Two companies with one statement each for 2019-12-31, available on 2020-06-30.
\<close>

definition ex5_comp :: "comp_raw list" where
  "ex5_comp =
     [statement ''001000'' (days_from_civil 2019 12 31) 100,
      statement ''002000'' (days_from_civil 2019 12 31) 300]"

text \<open>
  The statement of company 001000 for 2019-12-31, its key written with a trailing blank.
\<close>

definition ex6_comp :: "comp_raw list" where
  "ex6_comp = [statement ''001000 '' (days_from_civil 2019 12 31) 100]"

text \<open>
  Two securities observed on 2015-01-30. Security 10001 has a primary link to company
  001000; security 10002 has a primary link to the same company and a link of priority C
  to company 002000.
\<close>

definition ex7_crsp :: "crsp_row list" where
  "ex7_crsp =
     [\<lparr>permno = 10001, date = days_from_civil 2015 1 30, ret = Fin (1 / 100), prc = Fin 10,
       shrout = Fin 1000\<rparr>,
      \<lparr>permno = 10002, date = days_from_civil 2015 1 30, ret = Fin (2 / 100), prc = Fin 20,
       shrout = Fin 1000\<rparr>]"

definition ex7_link :: "link_rec list" where
  "ex7_link =
     [\<lparr>l_gvkey = ''001000'', lpermno = 10001, l_linktype = ''LU'', l_linkprim = ''P'',
       l_linkdt = Some (days_from_civil 2000 1 1), l_linkenddt = None\<rparr>,
      \<lparr>l_gvkey = ''001000'', lpermno = 10002, l_linktype = ''LU'', l_linkprim = ''P'',
       l_linkdt = Some (days_from_civil 2000 1 1), l_linkenddt = None\<rparr>,
      \<lparr>l_gvkey = ''002000'', lpermno = 10002, l_linktype = ''LC'', l_linkprim = ''C'',
       l_linkdt = Some (days_from_civil 2010 1 1), l_linkenddt = None\<rparr>]"

text \<open>
  The statement of company 001000 is the one for 2005-12-31, the statement of company
  002000 the one for 2013-12-31.
\<close>

definition ex8_comp :: "comp_raw list" where
  "ex8_comp =
     [statement ''001000'' (days_from_civil 2005 12 31) 200,
      statement ''002000'' (days_from_civil 2013 12 31) 600]"

text \<open>The two tables as they enter the join.\<close>

definition panel_of :: "crsp_row list \<Rightarrow> link_rec list \<Rightarrow> ccm_row list" where
  "panel_of crsp_data table = prepare_crsp_ccm (crsp_ccm_of crsp_data (get_ccm_link table))"

definition statements_of :: "comp_raw list \<Rightarrow> comp_row list" where
  "statements_of comp_data = prepare_comp (process_comp comp_data)"

text \<open>
  The panel that \<open>calculate_indicators\<close> holds after the temporal join and the filter
  \<open>be.notna()\<close>, empty when the join failed.
\<close>

definition joined_panel :: "crsp_row list \<Rightarrow> comp_raw list \<Rightarrow> link_rec list \<Rightarrow> merged_row list" where
  "joined_panel crsp_data comp_data ccm_link =
     rows_of (temporal_join (prepare_crsp_ccm (crsp_ccm_of crsp_data ccm_link))
                (statements_of comp_data))"

section \<open>Properties\<close>

subsection \<open>Book equity components\<close>

lemma fillna_first_non_missing:
  "notna d \<Longrightarrow> fillna a (first_non_missing as d) = first_non_missing (a # as) d"
  by (simp add: fillna_def)

text \<open>
  C5 (as the code has it). The resolved stockholders' equity of a fundamentals record is
  the first non-missing of: the reported \<open>seq\<close>; \<open>ceq\<close> plus the par value \<open>pstk\<close> of
  preferred stock (0 when \<open>pstk\<close> is missing); \<open>at - lt\<close> (the column \<open>at\<close> is \<open>at_c\<close> here); else 0. The preferred stock
  added to \<open>ceq\<close> is the par value alone, not the resolved preferred stock \<open>ps\<close>, which is
  the first non-missing of redemption, liquidation and par value, else 0.
\<close>

theorem se_resolved_par_value:
  "se (with_book_equity r) =
     first_non_missing
       [seq r, fl_add (ceq r) (first_non_missing [pstk r] (Fin 0)), fl_sub (at_c r) (lt r)]
       (Fin 0)
   \<and> ps (with_book_equity r) = first_non_missing [pstkrv r, pstkl r, pstk r] (Fin 0)"
  by (simp add: with_book_equity_def se_of_def ps_of_def fillna_def comp_raw.defs)

text \<open>
  C5 (as the specification states it) fails: with \<open>seq\<close> missing, \<open>ceq = 100\<close>, a redemption
  value of 10 and a par value of 5, the code resolves stockholders' equity to 105, while
  common equity plus the resolved preferred stock is 110.
\<close>

theorem se_resolved_counterexample:
  "se (with_book_equity
        \<lparr>c_gvkey = ''001000'', datadate = 18261, at_c = Fin 500, lt = Fin 300, pstk = Fin 5,
         ceq = Fin 100, txditc = NaN, pstkrv = Fin 10, seq = NaN, pstkl = NaN\<rparr>)
     = Fin 105
   \<and> first_non_missing
       [NaN,
        fl_add (Fin 100)
          (ps (with_book_equity
            \<lparr>c_gvkey = ''001000'', datadate = 18261, at_c = Fin 500, lt = Fin 300, pstk = Fin 5,
             ceq = Fin 100, txditc = NaN, pstkrv = Fin 10, seq = NaN, pstkl = NaN\<rparr>)),
        fl_sub (Fin 500) (Fin 300)]
       (Fin 0)
     = Fin 110"
  by (simp add: with_book_equity_def se_of_def ps_of_def fillna_def fl_sub_def notna_def
      comp_raw.defs)

subsection \<open>Momentum\<close>

lemma filter_notna_Fin: "filter notna (map Fin rs) = map Fin rs"
  by (induction rs) (simp_all add: notna_def)

lemma fl_prod_Fin:
  "fl_prod (map (fl_add (Fin 1) \<circ> Fin) rs) = Fin (prod_list (map (\<lambda>x. 1 + x) rs))"
  by (induction rs) (simp_all add: fl_prod_def)

lemma compound_Fin: "compound (map Fin rs) = Fin (prod_list (map (\<lambda>x. 1 + x) rs) - 1)"
  by (simp add: compound_def filter_notna_Fin fl_prod_Fin fl_sub_def)

text \<open>
  C3 (as the code has it). For a security with exactly 12 finite monthly returns, the
  rolling window of 12 rows at the 12th observation holds all 12 returns, the current
  month included: the momentum there is the compounded return of the 12 months minus
  the return of the 11th month (the 1-month lag). For 12 returns of 0.01 it is
  \<open>(1.01^12 - 1) - 0.01\<close>.
\<close>

theorem mom_twelve_returns:
  assumes "length rs = 12"
  shows "mom_at (map Fin rs) 11 = Fin (prod_list (map (\<lambda>x. 1 + x) rs) - 1 - rs ! 10)"
proof -
  have p: "map (prep_value \<circ> Fin) rs = map Fin rs"
    by (induction rs) (simp_all add: prep_value_def is_fin_def)
  have w: "rolling_window 12 (map Fin rs) 11 = map Fin rs"
    using assms by (simp add: rolling_window_def)
  have "rolling_apply 12 8 compound (map Fin rs) 11 = Fin (prod_list (map (\<lambda>x. 1 + x) rs) - 1)"
    using assms by (simp add: rolling_apply_def p w filter_notna_Fin compound_Fin)
  moreover have "shift1 (map Fin rs) 11 = Fin (rs ! 10)"
    using assms by (simp add: shift1_def)
  ultimately show ?thesis
    by (simp add: mom_at_def fl_sub_def)
qed

theorem mom_twelve_returns_witness:
  "mom_at (replicate 12 (Fin (1 / 100))) 11 = Fin ((101 / 100) ^ 12 - 1 - 1 / 100)"
proof -
  have "map Fin (replicate 12 (1 / 100)) = replicate 12 (Fin (1 / 100))"
    by simp
  moreover have "prod_list (map (\<lambda>x. 1 + x) (replicate 12 (1 / 100 :: real))) = (101 / 100) ^ 12"
    by (simp add: prod_list_replicate)
  moreover have "replicate 12 (1 / 100 :: real) ! 10 = 1 / 100"
    by simp
  ultimately show ?thesis
    using mom_twelve_returns [of "replicate 12 (1 / 100)"] by simp
qed

text \<open>
  C3 (as the specification states it) fails: the momentum at the 12th of 12 returns of
  0.01 is not \<open>(1.01^11 - 1) - 0.01\<close>.
\<close>

theorem mom_eleven_counterexample:
  "mom_at (replicate 12 (Fin (1 / 100))) 11 \<noteq> Fin ((101 / 100) ^ 11 - 1 - 1 / 100)"
  by code_simp

subsection \<open>The link merge and the derived columns\<close>

lemma attach_link_sel [simp]:
  "permno (attach_link c l) = permno c"
  "date (attach_link c l) = date c"
  "ret (attach_link c l) = ret c"
  "gvkey (attach_link c l) = l_gvkey l"
  by (simp_all add: attach_link_def crsp_row.defs)

lemma link_filter_append: "link_filter (xs @ ys) = link_filter xs @ link_filter ys"
  by (simp add: link_filter_def)

lemma link_filter_Some:
  "link_filter (map (\<lambda>l. (c, Some l)) ls) = map (attach_link c) (filter (\<lambda>l. link_contains l (date c)) ls)"
  by (induction ls) (simp_all add: link_filter_def)

lemma link_filter_one:
  "link_filter (case filter (\<lambda>l. lpermno l = permno c) ls of [] \<Rightarrow> [(c, None)] | ms \<Rightarrow> map (\<lambda>l. (c, Some l)) ms)
     = map (attach_link c) (qualifying ls c)"
proof (cases "filter (\<lambda>l. lpermno l = permno c) ls")
  case Nil
  then have "qualifying ls c = []"
    by (auto simp: qualifying_def filter_empty_conv)
  with Nil show ?thesis by (simp add: link_filter_def)
next
  case (Cons m ms)
  have "link_filter (map (\<lambda>l. (c, Some l)) (filter (\<lambda>l. lpermno l = permno c) ls))
          = map (attach_link c) (qualifying ls c)"
    by (simp add: link_filter_Some qualifying_def conj_commute)
  with Cons show ?thesis by simp
qed

lemma crsp_ccm_of_Nil: "crsp_ccm_of [] ls = []"
  by (simp add: crsp_ccm_of_def merge_link_def link_filter_def)

lemma crsp_ccm_of_Cons:
  "crsp_ccm_of (c # cs) ls = map (attach_link c) (qualifying ls c) @ crsp_ccm_of cs ls"
  by (simp add: crsp_ccm_of_def merge_link_def link_filter_append link_filter_one)

lemma set_crsp_ccm_of:
  "set (crsp_ccm_of cs ls) = {attach_link c l | c l. c \<in> set cs \<and> l \<in> set (qualifying ls c)}"
  by (induction cs) (auto simp: crsp_ccm_of_Nil crsp_ccm_of_Cons)

lemma filter_other_obs:
  assumes "(permno c', date c') \<noteq> (permno c, date c)"
  shows "filter (\<lambda>r. permno r = permno c \<and> date r = date c) (map (attach_link c') ms) = []"
  using assms by (auto simp: filter_empty_conv)

lemma filter_absent_obs:
  assumes "(permno c, date c) \<notin> set (map (\<lambda>x. (permno x, date x)) cs)"
  shows "filter (\<lambda>r. permno r = permno c \<and> date r = date c) (crsp_ccm_of cs ls) = []"
  using assms
proof (induction cs)
  case Nil
  then show ?case by (simp add: crsp_ccm_of_Nil)
next
  case (Cons a cs)
  then show ?case
    by (auto simp: crsp_ccm_of_Cons filter_empty_conv)
qed

lemma link_rows_of_obs:
  assumes "distinct (map (\<lambda>x. (permno x, date x)) cs)" and "c \<in> set cs"
  shows "filter (\<lambda>r. permno r = permno c \<and> date r = date c) (crsp_ccm_of cs ls)
           = map (attach_link c) (qualifying ls c)"
  using assms
proof (induction cs)
  case Nil
  then show ?case by simp
next
  case (Cons a cs)
  show ?case
  proof (cases "a = c")
    case True
    with Cons.prems have "(permno c, date c) \<notin> set (map (\<lambda>x. (permno x, date x)) cs)"
      by simp
    then have "filter (\<lambda>r. permno r = permno c \<and> date r = date c) (crsp_ccm_of cs ls) = []"
      by (rule filter_absent_obs)
    with True show ?thesis
      by (simp add: crsp_ccm_of_Cons)
  next
    case False
    with Cons.prems have in_cs: "c \<in> set cs" and d: "distinct (map (\<lambda>x. (permno x, date x)) cs)"
      and "(permno a, date a) \<notin> set (map (\<lambda>x. (permno x, date x)) cs)"
      by auto
    then have "(permno a, date a) \<noteq> (permno c, date c)"
      using in_cs by force
    then have "filter (\<lambda>r. permno r = permno c \<and> date r = date c) (map (attach_link a) (qualifying ls a)) = []"
      by (rule filter_other_obs)
    with Cons.IH [OF d in_cs] show ?thesis
      by (simp add: crsp_ccm_of_Cons)
  qed
qed

lemma set_drop_duplicates_subset: "set (drop_duplicates key xs) \<subseteq> set xs"
  by (induction key xs rule: drop_duplicates.induct) auto

lemma distinct_drop_duplicates: "distinct (map key (drop_duplicates key xs))"
proof (induction key xs rule: drop_duplicates.induct)
  case (1 key)
  then show ?case by simp
next
  case (2 key x xs)
  have "set (drop_duplicates key (filter (\<lambda>y. key y \<noteq> key x) xs)) \<subseteq> set (filter (\<lambda>y. key y \<noteq> key x) xs)"
    by (rule set_drop_duplicates_subset)
  then have "key x \<notin> key ` set (drop_duplicates key (filter (\<lambda>y. key y \<noteq> key x) xs))"
    by fastforce
  with 2 show ?case by simp
qed

lemma drop_duplicates_id: "distinct (map key xs) \<Longrightarrow> drop_duplicates key xs = xs"
proof (induction xs)
  case Nil
  then show ?case by simp
next
  case (Cons x xs)
  from Cons.prems have "key x \<notin> key ` set xs"
    by simp
  then have "\<forall>y\<in>set xs. key y \<noteq> key x"
    by (metis imageI)
  then have "filter (\<lambda>y. key y \<noteq> key x) xs = xs"
    by (simp add: filter_id_conv)
  with Cons show ?case by simp
qed


lemma indicator_row_sel [simp]:
  "permno (indicator_row df i) = permno (df ! i)"
  "date (indicator_row df i) = date (df ! i)"
  "ret (indicator_row df i) = ret (df ! i)"
  "gvkey (indicator_row df i) = gvkey (df ! i)"
  "be (indicator_row df i) = be (df ! i)"
  "year (indicator_row df i) = dt_year (date (df ! i))"
  "month (indicator_row df i) = dt_month (date (df ! i))"
  "n_c (indicator_row df i) = length (filter (\<lambda>r'. year_month (date r') = year_month (date (df ! i))) df)"
  "me (indicator_row df i) = fl_mul (fl_abs (prc (df ! i))) (shrout (df ! i))"
  "size_c (indicator_row df i) = fl_log (fl_mul (fl_abs (prc (df ! i))) (shrout (df ! i)))"
  "bm (indicator_row df i) = fl_div (fl_mul (be (df ! i)) (Fin 1000)) (fl_mul (fl_abs (prc (df ! i))) (shrout (df ! i)))"
  "mom (indicator_row df i) = mom_at (group_series df i) (group_pos df i)"
  by (simp_all add: indicator_row_def merged_row.defs Let_def)

lemma in_indicators:
  assumes "r \<in> set (indicators merged)"
  obtains i where "i < length merged" "r = indicator_row (sort_key (\<lambda>r. (permno r, date r)) merged) i"
  using assms by (auto simp: indicators_def Let_def)

lemma length_filter_sort_key: "length (filter P (sort_key f xs)) = length (filter P xs)"
  by (simp add: filter_sort)

lemma n_c_indicators:
  assumes "r \<in> set (indicators merged)"
  shows "n_c r = length (filter (\<lambda>m. year_month (date m) = (year r, month r)) merged)"
proof -
  from assms obtain i where "r = indicator_row (sort_key (\<lambda>r. (permno r, date r)) merged) i"
    by (rule in_indicators)
  then show ?thesis
    by (simp add: length_filter_sort_key year_month_def)
qed

lemma set_final_stats_of: "set (final_stats_of df) \<subseteq> set df"
  by (auto simp: final_stats_of_def dropna_def)


subsection \<open>Concrete runs\<close>

lemma ex_crsp_ccm_rows:
  "map (\<lambda>r. (permno r, date r, gvkey r, linkprim r)) (crsp_ccm_of ex_crsp (get_ccm_link ex_link))
     = [(10001, 16465, ''001000'', ''P''), (10001, 16465, ''002000'', ''C'')]"
  by code_simp

lemma ex_join_two:
  "temporal_join (panel_of ex_crsp ex_link) (statements_of ex_comp_two) =
     Inr [\<lparr>permno = 10001, date = 16465, ret = Fin (1 / 100), prc = Fin 10, shrout = Fin 1000,
           gvkey = ''001000'', linktype = ''LU'', linkprim = ''P'', linkdt = Some 10957,
           linkenddt = Some 20088, be = Fin 200, available_date = Some 16251\<rparr>,
          \<lparr>permno = 10001, date = 16465, ret = Fin (1 / 100), prc = Fin 10, shrout = Fin 1000,
           gvkey = ''002000'', linktype = ''LC'', linkprim = ''C'', linkdt = Some 14610,
           linkenddt = Some 20088, be = Fin 600, available_date = Some 16251\<rparr>]"
  by code_simp

lemma ym_16465: "dt_year 16465 = 2015" "dt_month 16465 = 1"
  by code_simp+

lemma ex_indicators_two:
  "map (\<lambda>r. (permno r, year r, month r, n_c r))
     (indicators (rows_of (temporal_join (panel_of ex_crsp ex_link) (statements_of ex_comp_two))))
   = [(10001, 2015, 1, 2), (10001, 2015, 1, 2)]"
  apply (simp add: ex_join_two rows_of_def indicators_def)
  apply (simp only: Let_def)
  apply (simp add: year_month_def ym_16465)
  done

lemma ex_n_two:
  "map n_c (indicators (rows_of (temporal_join (panel_of ex_crsp ex_link) (statements_of ex_comp_two))))
     = [2, 2]"
  using ex_indicators_two [THEN arg_cong, of "map (\<lambda>q. snd (snd (snd q)))"]
  by (simp add: comp_def)

lemma ex_permno_two:
  "map permno (indicators (rows_of (temporal_join (panel_of ex_crsp ex_link) (statements_of ex_comp_two))))
     = [10001, 10001]"
  using ex_indicators_two [THEN arg_cong, of "map fst"]
  by (simp add: comp_def)

lemma ex_final_two:
  "final_stats_of (indicators (rows_of (temporal_join (panel_of ex_crsp ex_link) (statements_of ex_comp_two))))
   = indicators (rows_of (temporal_join (panel_of ex_crsp ex_link) (statements_of ex_comp_two)))"
  apply (simp add: ex_join_two rows_of_def indicators_def)
  apply (simp only: Let_def)
  apply (simp add: final_stats_of_def dropna_def notna_def)
  done

lemma ex_calculate_two:
  "calculate_indicators ex_crsp ex_comp_two (get_ccm_link ex_link)
     = Inr (indicators (rows_of (temporal_join (panel_of ex_crsp ex_link) (statements_of ex_comp_two))))"
proof -
  define R where "R = rows_of (temporal_join (panel_of ex_crsp ex_link) (statements_of ex_comp_two))"
  have ne: "crsp_ccm_of ex_crsp (get_ccm_link ex_link) \<noteq> []"
    using ex_crsp_ccm_rows by auto
  have j: "temporal_join (panel_of ex_crsp ex_link) (statements_of ex_comp_two) = Inr R"
    unfolding R_def by (simp add: ex_join_two rows_of_def)
  have f: "final_stats_of (indicators R) = indicators R"
    unfolding R_def by (rule ex_final_two)
  show ?thesis
    unfolding calculate_indicators_def Let_def panel_of_def [symmetric]
      statements_of_def [symmetric] R_def [symmetric]
    by (simp add: ne j f)
qed

subsection \<open>Link resolution\<close>

text \<open>
  C4 (as the code has it). When several link records of one \<open>permno\<close> hold the date of
  an observation, the merge keeps all of them: the fundamentals keys attached to the
  observation are exactly the keys of its qualifying link records. Nothing is selected
  by \<open>linkprim\<close> or by \<open>linkdt\<close>; the result is a function of the two tables.
\<close>

theorem link_keeps_every_qualifying:
  assumes "c \<in> set crsp_data"
  shows "set (map gvkey (filter (\<lambda>r. permno r = permno c \<and> date r = date c)
                          (crsp_ccm_of crsp_data ccm_link)))
         = set (map l_gvkey (qualifying ccm_link c))"
proof (intro set_eqI iffI)
  fix g
  assume "g \<in> set (map gvkey (filter (\<lambda>r. permno r = permno c \<and> date r = date c)
                                (crsp_ccm_of crsp_data ccm_link)))"
  then obtain c' l where "c' \<in> set crsp_data" "l \<in> set (qualifying ccm_link c')"
      "permno c' = permno c" "date c' = date c" "g = l_gvkey l"
    by (auto simp: set_crsp_ccm_of)
  then show "g \<in> set (map l_gvkey (qualifying ccm_link c))"
    by (auto simp: qualifying_def)
next
  fix g
  assume "g \<in> set (map l_gvkey (qualifying ccm_link c))"
  then obtain l where l: "l \<in> set (qualifying ccm_link c)" "g = l_gvkey l"
    by auto
  with assms have "attach_link c l \<in> set (crsp_ccm_of crsp_data ccm_link)"
    by (auto simp: set_crsp_ccm_of)
  with l show "g \<in> set (map gvkey (filter (\<lambda>r. permno r = permno c \<and> date r = date c)
                                (crsp_ccm_of crsp_data ccm_link)))"
    by (auto simp: image_iff intro!: bexI [of _ "attach_link c l"])
qed

theorem link_keeps_every_qualifying_witness:
  "set (map gvkey (filter (\<lambda>r. permno r = permno (hd ex_crsp) \<and> date r = date (hd ex_crsp))
                    (crsp_ccm_of ex_crsp (get_ccm_link ex_link))))
     = {''001000'', ''002000''}"
proof -
  have "hd ex_crsp \<in> set ex_crsp"
    by (simp add: ex_crsp_def)
  moreover have "map l_gvkey (qualifying (get_ccm_link ex_link) (hd ex_crsp)) = [''001000'', ''002000'']"
    by code_simp
  ultimately show ?thesis
    using link_keeps_every_qualifying [of "hd ex_crsp" ex_crsp "get_ccm_link ex_link"] by simp
qed

text \<open>
  C4 (as the specification states it) fails: the observation of 2015-01-30 has a link of
  priority P and a link of priority C whose intervals both hold its date, and both
  fundamentals keys stay attached to it, through the merge and through the join.
\<close>

theorem link_priority_counterexample:
  "map (\<lambda>r. (permno r, date r, gvkey r, linkprim r)) (crsp_ccm_of ex_crsp (get_ccm_link ex_link))
     = [(10001, 16465, ''001000'', ''P''), (10001, 16465, ''002000'', ''C'')]
   \<and> map (\<lambda>r. (permno r, date r, gvkey r))
       (rows_of (temporal_join (panel_of ex_crsp ex_link) (statements_of ex_comp_two)))
     = [(10001, 16465, ''001000''), (10001, 16465, ''002000'')]"
  by code_simp

subsection \<open>The monthly count\<close>

text \<open>
  C6 (as the code has it). For every row of the final panel, \<open>n\<close> is the number of rows of
  the joined panel in that row's (year, month), counted before the rows with a missing
  \<open>ret\<close>, \<open>size\<close> or \<open>bm\<close> are dropped and counting a \<open>permno\<close> once for each of its rows; all
  rows of the same (year, month) carry the same \<open>n\<close>.
\<close>

theorem period_count_counts_rows:
  "\<forall>r \<in> set (final_stats_of (indicators merged)).
     n_c r = length (filter (\<lambda>m. year_month (date m) = (year r, month r)) merged)
     \<and> (\<forall>r' \<in> set (final_stats_of (indicators merged)).
          (year r', month r') = (year r, month r) \<longrightarrow> n_c r' = n_c r)"
proof (intro ballI conjI impI)
  fix r assume "r \<in> set (final_stats_of (indicators merged))"
  then have r: "r \<in> set (indicators merged)"
    using set_final_stats_of by blast
  then show "n_c r = length (filter (\<lambda>m. year_month (date m) = (year r, month r)) merged)"
    by (rule n_c_indicators)
  fix r' assume "r' \<in> set (final_stats_of (indicators merged))"
    and eq: "(year r', month r') = (year r, month r)"
  then have "r' \<in> set (indicators merged)"
    using set_final_stats_of by blast
  then have "n_c r' = length (filter (\<lambda>m. year_month (date m) = (year r', month r')) merged)"
    by (rule n_c_indicators)
  with eq n_c_indicators [OF r] show "n_c r' = n_c r"
    by simp
qed

theorem period_count_counts_rows_witness:
  "map n_c (final_stats_of (indicators
      (rows_of (temporal_join (panel_of ex_crsp ex_link) (statements_of ex_comp_two))))) = [2, 2]
   \<and> length (filter (\<lambda>m. year_month (date m) = (2015, 1))
       (rows_of (temporal_join (panel_of ex_crsp ex_link) (statements_of ex_comp_two)))) = 2"
proof -
  have "map n_c (indicators
      (rows_of (temporal_join (panel_of ex_crsp ex_link) (statements_of ex_comp_two)))) = [2, 2]"
    by (rule ex_n_two)
  moreover have "length (filter (\<lambda>m. year_month (date m) = (2015, 1))
       (rows_of (temporal_join (panel_of ex_crsp ex_link) (statements_of ex_comp_two)))) = 2"
    by (simp add: ex_join_two rows_of_def year_month_def ym_16465)
  ultimately show ?thesis
    using period_count_counts_rows
      [of "rows_of (temporal_join (panel_of ex_crsp ex_link) (statements_of ex_comp_two))"]
    by (simp add: ex_final_two)
qed

text \<open>
  C6 (as the specification states it) fails: the security 10001 is the only one observed
  in January 2015, and with its two links the final panel has two rows for it, each with
  \<open>n = 2\<close>, while the number of distinct security keys of the month is 1.
\<close>

theorem period_count_distinct_counterexample:
  "map (\<lambda>r. (permno r, year r, month r, n_c r))
     (rows_of (calculate_indicators ex_crsp ex_comp_two (get_ccm_link ex_link)))
     = [(10001, 2015, 1, 2), (10001, 2015, 1, 2)]
   \<and> length (unique (map permno
       (rows_of (calculate_indicators ex_crsp ex_comp_two (get_ccm_link ex_link))))) = 1"
proof -
  have "rows_of (calculate_indicators ex_crsp ex_comp_two (get_ccm_link ex_link))
          = indicators (rows_of (temporal_join (panel_of ex_crsp ex_link) (statements_of ex_comp_two)))"
    by (simp add: ex_calculate_two rows_of_def [of "Inr x" for x])
  then show ?thesis
    by (simp add: ex_indicators_two ex_permno_two unique_def)
qed

subsection \<open>The final panel\<close>

text \<open>
  C7. The final panel holds exactly the derived rows in which \<open>ret\<close>, \<open>size\<close> and \<open>bm\<close> are
  all present, in their order; a row whose \<open>mom\<close> is missing is kept when those three are
  present.
\<close>

theorem final_panel_rows:
  "final_stats_of (indicators merged)
     = filter (\<lambda>r. ret r \<noteq> NaN \<and> size_c r \<noteq> NaN \<and> bm r \<noteq> NaN) (indicators merged)
   \<and> (\<forall>r \<in> set (indicators merged).
        ret r \<noteq> NaN \<and> size_c r \<noteq> NaN \<and> bm r \<noteq> NaN \<and> mom r = NaN
          \<longrightarrow> r \<in> set (final_stats_of (indicators merged)))"
  by (simp add: final_stats_of_def dropna_def notna_def)

lemma indicators_single: "indicators [m] = [indicator_row [m] 0]"
  by (simp add: indicators_def)

theorem final_panel_rows_witness:
  "mom (indicator_row
         [\<lparr>permno = 10001, date = 16465, ret = Fin (1 / 100), prc = Fin 10, shrout = Fin 1000,
           gvkey = ''001000'', linktype = ''LU'', linkprim = ''P'', linkdt = Some 10957,
           linkenddt = Some 20088, be = Fin 200, available_date = Some 16251\<rparr>] 0) = NaN
   \<and> indicator_row
         [\<lparr>permno = 10001, date = 16465, ret = Fin (1 / 100), prc = Fin 10, shrout = Fin 1000,
           gvkey = ''001000'', linktype = ''LU'', linkprim = ''P'', linkdt = Some 10957,
           linkenddt = Some 20088, be = Fin 200, available_date = Some 16251\<rparr>] 0
       \<in> set (final_stats_of (indicators
         [\<lparr>permno = 10001, date = 16465, ret = Fin (1 / 100), prc = Fin 10, shrout = Fin 1000,
           gvkey = ''001000'', linktype = ''LU'', linkprim = ''P'', linkdt = Some 10957,
           linkenddt = Some 20088, be = Fin 200, available_date = Some 16251\<rparr>]))"
  using final_panel_rows [of
         "[\<lparr>permno = 10001, date = 16465, ret = Fin (1 / 100), prc = Fin 10, shrout = Fin 1000,
           gvkey = ''001000'', linktype = ''LU'', linkprim = ''P'', linkdt = Some 10957,
           linkenddt = Some 20088, be = Fin 200, available_date = Some 16251\<rparr>]"]
  by (simp add: indicators_single mom_at_def rolling_apply_def rolling_window_def shift1_def
      group_series_def group_pos_def is_fin_def prep_value_def notna_def fl_sub_def)

subsection \<open>No look-ahead\<close>

lemma matched_sel [simp]:
  "permno (matched r c) = permno r"
  "date (matched r c) = date r"
  "gvkey (matched r c) = gvkey r"
  "be (matched r c) = c_be c"
  "available_date (matched r c) = Some (c_available_date c)"
  by (simp_all add: matched_def ccm_row.defs)

lemma with_be_sel [simp]:
  "permno (with_be r b) = permno r"
  "date (with_be r b) = date r"
  "gvkey (with_be r b) = gvkey r"
  "be (with_be r b) = b"
  "available_date (with_be r b) = None"
  by (simp_all add: with_be_def ccm_row.defs)

lemma asof_backward_Some:
  assumes "asof_backward right g d = Some c"
  shows "c \<in> set right \<and> c_gvkey c = g \<and> c_available_date c \<le> d"
proof -
  let ?F = "filter (\<lambda>c. c_gvkey c = g \<and> c_available_date c \<le> d) right"
  from assms have ne: "?F \<noteq> []" and c: "c = last ?F"
    by (auto simp: asof_backward_def split: list.splits)
  from ne have "last ?F \<in> set ?F"
    by (rule last_in_set)
  with c show ?thesis by auto
qed

lemma merge_asof_row:
  assumes "merge_asof left right tol = Inr m" and "r \<in> set m" and "be r \<noteq> NaN"
  shows "\<exists>r0 \<in> set left. \<exists>c \<in> set right. r = matched r0 c \<and> c_gvkey c = gvkey r0
           \<and> c_available_date c \<le> date r0 \<and> date r0 - c_available_date c \<le> tol"
proof -
  from assms(1) have m: "m = map (\<lambda>r. case asof_backward right (gvkey r) (date r) of
                           None \<Rightarrow> unmatched r
                         | Some c \<Rightarrow> if date r - c_available_date c \<le> tol then matched r c
                                     else unmatched r) left"
    by (auto simp: merge_asof_def split: if_splits)
  with assms(2) obtain r0 where r0: "r0 \<in> set left"
    and r: "r = (case asof_backward right (gvkey r0) (date r0) of
                           None \<Rightarrow> unmatched r0
                         | Some c \<Rightarrow> if date r0 - c_available_date c \<le> tol then matched r0 c
                                     else unmatched r0)"
    by auto
  show ?thesis
  proof (cases "asof_backward right (gvkey r0) (date r0)")
    case None
    with r assms(3) show ?thesis by (simp add: unmatched_def)
  next
    case (Some c)
    with r assms(3) have tol: "date r0 - c_available_date c \<le> tol" and rc: "r = matched r0 c"
      by (auto simp: unmatched_def split: if_splits)
    from asof_backward_Some [OF Some] r0 tol rc show ?thesis
      by blast
  qed
qed

lemma tier1_row:
  assumes "tier1 crsp_ccm comp_tab = Inr m" and "r \<in> set m" and "be r \<noteq> NaN"
  shows "\<exists>c \<in> set comp_tab. strip (c_gvkey c) = gvkey r \<and> c_be c = be r
           \<and> available_date r = Some (c_available_date c) \<and> c_available_date c \<le> date r
           \<and> date r - c_available_date c \<le> 365 * 5"
proof -
  let ?L = "sort_key (\<lambda>r. (gvkey r, date r)) (map (\<lambda>r. r\<lparr>gvkey := strip (gvkey r)\<rparr>) crsp_ccm)"
  let ?R = "sort_key (\<lambda>c. (c_gvkey c, c_available_date c)) (map (\<lambda>c. c\<lparr>c_gvkey := strip (c_gvkey c)\<rparr>) comp_tab)"
  from assms(1) have "merge_asof ?L ?R (365 * 5) = Inr m"
    by (auto simp: tier1_def Let_def split: if_splits)
  from merge_asof_row [OF this assms(2,3)] obtain r0 c where
    "c \<in> set ?R" "r = matched r0 c" "c_gvkey c = gvkey r0" "c_available_date c \<le> date r0"
    "date r0 - c_available_date c \<le> 365 * 5"
    by blast
  moreover from \<open>c \<in> set ?R\<close> obtain c0 where "c0 \<in> set comp_tab" "c = c0\<lparr>c_gvkey := strip (c_gvkey c0)\<rparr>"
    by auto
  ultimately show ?thesis
    by (intro bexI [of _ c0]) auto
qed

lemma searchsorted_right_le: "searchsorted_right a v \<le> length a"
  by (simp add: searchsorted_right_def length_takeWhile_le)

lemma searchsorted_right_nth:
  assumes "0 < searchsorted_right a v"
  shows "a ! (searchsorted_right a v - 1) \<le> v"
proof -
  let ?tw = "takeWhile (\<lambda>x. x \<le> v) a"
  from assms have i: "searchsorted_right a v - 1 < length ?tw"
    by (simp add: searchsorted_right_def)
  then have "a ! (searchsorted_right a v - 1) = ?tw ! (searchsorted_right a v - 1)"
    by (simp add: takeWhile_nth)
  moreover from i have "?tw ! (searchsorted_right a v - 1) \<in> set ?tw"
    by (rule nth_mem)
  ultimately show ?thesis
    by (auto dest: set_takeWhileD)
qed

lemma tier2_group_row:
  assumes "r \<in> set (tier2_group crsp_ccm comp_tab g)"
  shows "\<exists>c \<in> set comp_tab. c_gvkey c = gvkey r \<and> c_be c = be r
           \<and> available_date r = Some (c_available_date c) \<and> c_available_date c \<le> date r"
proof -
  let ?cs = "sort_key c_available_date (filter (\<lambda>c. c_gvkey c = g) comp_tab)"
  from assms obtain r0 where r0: "gvkey r0 = g"
    and pos: "0 < searchsorted_right (map c_available_date ?cs) (date r0)"
    and r: "r = matched r0 (?cs ! (searchsorted_right (map c_available_date ?cs) (date r0) - 1))"
    by (auto simp: tier2_group_def Let_def split: if_splits)
  let ?i = "searchsorted_right (map c_available_date ?cs) (date r0) - 1"
  have "searchsorted_right (map c_available_date ?cs) (date r0) \<le> length (map c_available_date ?cs)"
    by (rule searchsorted_right_le)
  with pos have i: "?i < length ?cs"
    by simp
  then have "?cs ! ?i \<in> set ?cs"
    by (rule nth_mem)
  then have mem: "?cs ! ?i \<in> set comp_tab" and key: "c_gvkey (?cs ! ?i) = g"
    by auto
  from searchsorted_right_nth [OF pos] i have "c_available_date (?cs ! ?i) \<le> date r0"
    by simp
  with mem key r r0 show ?thesis
    by (intro bexI [of _ "?cs ! ?i"]) auto
qed

lemma tier2_row:
  assumes "r \<in> set (tier2_rows crsp_ccm comp_tab)"
  shows "\<exists>c \<in> set comp_tab. c_gvkey c = gvkey r \<and> c_be c = be r
           \<and> available_date r = Some (c_available_date c) \<and> c_available_date c \<le> date r"
  using assms by (auto simp: tier2_rows_def dest: tier2_group_row)

lemma last_notna_mem:
  assumes "last_notna xs \<noteq> NaN"
  shows "last_notna xs \<in> set xs"
proof -
  from assms have ne: "filter notna xs \<noteq> []"
    by (auto simp: last_notna_def split: list.splits)
  then have "last (filter notna xs) \<in> set (filter notna xs)"
    by (rule last_in_set)
  moreover from ne have "last_notna xs = last (filter notna xs)"
    by (auto simp: last_notna_def split: list.splits)
  ultimately show ?thesis by auto
qed

lemma in_keyed_map: "(k, b) \<in> set (map (\<lambda>k. (k, f k)) ks) \<Longrightarrow> b = f k"
  by auto

lemma comp_yearly_entry:
  assumes "(k, b) \<in> set (comp_yearly comp_tab)" and "b \<noteq> NaN"
  shows "\<exists>c \<in> set comp_tab. comp_key_year c = k \<and> c_be c = b"
proof -
  let ?s = "sort_key (\<lambda>c. (c_gvkey c, dt_year (datadate c), datadate c)) comp_tab"
  let ?vals = "map c_be (filter (\<lambda>c. comp_key_year c = k) ?s)"
  from assms(1) have "b = last_notna ?vals"
    unfolding comp_yearly_def Let_def by (rule in_keyed_map)
  with assms(2) have "last_notna ?vals \<noteq> NaN" and beq: "b = last_notna ?vals"
    by simp_all
  then have "last_notna ?vals \<in> set ?vals"
    by (intro last_notna_mem)
  with beq have "b \<in> set ?vals"
    by (simp only:)
  then obtain c where "c \<in> set (filter (\<lambda>c. comp_key_year c = k) ?s)" "c_be c = b"
    by (metis (no_types, lifting) imageE list.set_map)
  then show ?thesis
    by (intro bexI [of _ c]) simp_all
qed

lemma tier3_row:
  assumes "tier3 crsp_ccm comp_tab = Inr m" and "r \<in> set m"
  shows "be r \<noteq> NaN \<and> (\<exists>c \<in> set comp_tab. c_gvkey c = gvkey r \<and> c_be c = be r
           \<and> dt_year (datadate c) = dt_year (date r))"
proof -
  let ?pick = "\<lambda>r. case filter (\<lambda>kb. fst kb = (gvkey r, dt_year (date r))) (comp_yearly comp_tab) of
                      [] \<Rightarrow> [unmatched r]
                    | ms \<Rightarrow> map (\<lambda>kb. with_be r (snd kb)) ms"
  from assms(1) have "m = filter (\<lambda>r. notna (be r)) (concat (map ?pick crsp_ccm))"
    unfolding tier3_def Let_def by (simp split: if_splits)
  with assms(2) have "r \<in> set (filter (\<lambda>r. notna (be r)) (concat (map ?pick crsp_ccm)))"
    by simp
  then obtain r0 where na: "be r \<noteq> NaN" and r: "r \<in> set (?pick r0)"
    by (auto simp: notna_def)
  have "\<exists>kb \<in> set (comp_yearly comp_tab). fst kb = (gvkey r0, dt_year (date r0)) \<and> r = with_be r0 (snd kb)"
  proof (cases "filter (\<lambda>kb. fst kb = (gvkey r0, dt_year (date r0))) (comp_yearly comp_tab)")
    case Nil
    with r na show ?thesis by (simp add: unmatched_def)
  next
    case (Cons a as)
    with r have "r \<in> set (map (\<lambda>kb. with_be r0 (snd kb)) (a # as))"
      by simp
    then obtain kb where "kb \<in> set (a # as)" and rk: "r = with_be r0 (snd kb)"
      by (metis (no_types, lifting) imageE list.set_map)
    moreover have "set (a # as) = set (filter (\<lambda>kb. fst kb = (gvkey r0, dt_year (date r0))) (comp_yearly comp_tab))"
      by (simp only: Cons)
    ultimately show ?thesis by auto
  qed
  then obtain kb where kb: "kb \<in> set (comp_yearly comp_tab)" "fst kb = (gvkey r0, dt_year (date r0))"
    and rk: "r = with_be r0 (snd kb)"
    by blast
  from kb have "((gvkey r0, dt_year (date r0)), snd kb) \<in> set (comp_yearly comp_tab)"
    by (metis prod.collapse)
  moreover from rk na have "snd kb \<noteq> NaN" by simp
  ultimately obtain c where "c \<in> set comp_tab" "comp_key_year c = (gvkey r0, dt_year (date r0))"
    "c_be c = snd kb"
    using comp_yearly_entry by blast
  with rk na show ?thesis
    by (auto simp: comp_key_year_def)
qed

text \<open>
  C1 (as the code has it). In tier 1 and in tier 2 every matched row carries the book
  equity of a statement of its own company whose availability date is not after the
  observation date. Tier 3 does not look at availability: it pairs an observation with
  the statement of its company whose \<open>datadate\<close> lies in the calendar year of the
  observation.
\<close>

theorem no_look_ahead_by_tier:
  "(\<forall>m. tier1 crsp_ccm comp_tab = Inr m \<longrightarrow>
      (\<forall>r \<in> set m. be r \<noteq> NaN \<longrightarrow>
         (\<exists>c \<in> set comp_tab. strip (c_gvkey c) = gvkey r \<and> c_be c = be r
            \<and> available_date r = Some (c_available_date c) \<and> c_available_date c \<le> date r)))
   \<and> (\<forall>r \<in> set (tier2_rows crsp_ccm comp_tab).
         \<exists>c \<in> set comp_tab. c_gvkey c = gvkey r \<and> c_be c = be r
            \<and> available_date r = Some (c_available_date c) \<and> c_available_date c \<le> date r)
   \<and> (\<forall>m. tier3 crsp_ccm comp_tab = Inr m \<longrightarrow>
         (\<forall>r \<in> set m.
            \<exists>c \<in> set comp_tab. c_gvkey c = gvkey r \<and> c_be c = be r
               \<and> dt_year (datadate c) = dt_year (date r)))"
proof (intro conjI allI impI ballI)
  fix m r
  assume "tier1 crsp_ccm comp_tab = Inr m" "r \<in> set m" "be r \<noteq> NaN"
  from tier1_row [OF this]
  show "\<exists>c \<in> set comp_tab. strip (c_gvkey c) = gvkey r \<and> c_be c = be r
            \<and> available_date r = Some (c_available_date c) \<and> c_available_date c \<le> date r"
    by blast
next
  fix r
  assume "r \<in> set (tier2_rows crsp_ccm comp_tab)"
  then show "\<exists>c \<in> set comp_tab. c_gvkey c = gvkey r \<and> c_be c = be r
            \<and> available_date r = Some (c_available_date c) \<and> c_available_date c \<le> date r"
    by (rule tier2_row)
next
  fix m r
  assume "tier3 crsp_ccm comp_tab = Inr m" "r \<in> set m"
  from tier3_row [OF this]
  show "\<exists>c \<in> set comp_tab. c_gvkey c = gvkey r \<and> c_be c = be r
               \<and> dt_year (datadate c) = dt_year (date r)"
    by blast
qed

theorem no_look_ahead_by_tier_witness:
  "(\<exists>c \<in> set (statements_of ex4_comp).
      c_be c = be (hd (rows_of (tier1 (panel_of ex4_crsp ex4_link) (statements_of ex4_comp))))
      \<and> c_available_date c
          \<le> date (hd (rows_of (tier1 (panel_of ex4_crsp ex4_link) (statements_of ex4_comp)))))
   \<and> (\<exists>c \<in> set (statements_of ex4_comp).
      c_be c = be (hd (tier2_rows (panel_of ex4_crsp ex4_link) (statements_of ex4_comp)))
      \<and> c_available_date c
          \<le> date (hd (tier2_rows (panel_of ex4_crsp ex4_link) (statements_of ex4_comp))))
   \<and> (\<exists>c \<in> set (statements_of ex4_comp).
      c_be c = be (hd (rows_of (tier3 (panel_of ex4_crsp ex4_link) (statements_of ex4_comp))))
      \<and> dt_year (datadate c)
          = dt_year (date (hd (rows_of (tier3 (panel_of ex4_crsp ex4_link) (statements_of ex4_comp))))))"
proof -
  let ?P = "panel_of ex4_crsp ex4_link" and ?S = "statements_of ex4_comp"
  have t1: "tier1 ?P ?S = Inr (rows_of (tier1 ?P ?S))"
    and h1: "hd (rows_of (tier1 ?P ?S)) \<in> set (rows_of (tier1 ?P ?S))"
    and b1: "be (hd (rows_of (tier1 ?P ?S))) \<noteq> NaN"
    by code_simp+
  have h2: "hd (tier2_rows ?P ?S) \<in> set (tier2_rows ?P ?S)"
    by code_simp
  have t3: "tier3 ?P ?S = Inr (rows_of (tier3 ?P ?S))"
    and h3: "hd (rows_of (tier3 ?P ?S)) \<in> set (rows_of (tier3 ?P ?S))"
    by code_simp+
  from no_look_ahead_by_tier [of ?P ?S] t1 h1 b1 h2 t3 h3 show ?thesis
    by blast
qed

text \<open>
  C1 (as the specification states it) fails in tier 3. The dates of the two observations
  are not in ascending order over the whole panel, so \<open>merge_asof\<close> raises; no statement
  is available before either observation, so tier 2 finds nothing; tier 3 then pairs the
  observation of 2020-08-31 with the statement for 2020-12-31, whose availability date
  2021-06-30 lies after the observation, and it is the only statement of that company.
\<close>

theorem tier3_look_ahead_counterexample:
  "tier1 (panel_of ex3_crsp ex3_link) (statements_of ex3_comp) = Inl KeysNotSorted
   \<and> tier2 (panel_of ex3_crsp ex3_link) (statements_of ex3_comp) = Inl NoMatch
   \<and> map (\<lambda>r. (gvkey r, date r, be r))
       (rows_of (temporal_join (panel_of ex3_crsp ex3_link) (statements_of ex3_comp)))
     = [(''001000'', days_from_civil 2020 8 31, Fin 100)]
   \<and> map (\<lambda>c. (c_gvkey c, c_be c, c_available_date c)) (statements_of ex3_comp)
     = [(''001000'', Fin 100, days_from_civil 2021 6 30)]
   \<and> days_from_civil 2020 8 31 < days_from_civil 2021 6 30"
  by code_simp

subsection \<open>Tier 1 against tier 2\<close>

lemma takeWhile_le_sorted:
  assumes "sorted (map f xs)"
  shows "takeWhile (\<lambda>x. f x \<le> d) xs = filter (\<lambda>x. f x \<le> (d :: int)) xs"
  using assms
proof (induction xs)
  case Nil
  then show ?case by simp
next
  case (Cons x xs)
  show ?case
  proof (cases "f x \<le> d")
    case True
    with Cons show ?thesis by simp
  next
    case False
    with Cons.prems have "\<forall>y \<in> set xs. \<not> f y \<le> d"
      by fastforce
    then have "filter (\<lambda>x. f x \<le> d) xs = []"
      by (simp add: filter_empty_conv)
    with False show ?thesis by simp
  qed
qed

lemma searchsorted_right_sorted:
  assumes "sorted (map f cs)"
  shows "searchsorted_right (map f cs) d = length (filter (\<lambda>c. f c \<le> d) cs)"
proof -
  have "takeWhile (\<lambda>x. x \<le> d) (map f cs) = map f (takeWhile (\<lambda>c. f c \<le> d) cs)"
    by (simp add: takeWhile_map comp_def)
  then show ?thesis
    using assms by (simp add: searchsorted_right_def takeWhile_le_sorted)
qed

lemma nth_before_insertion_point:
  assumes "sorted (map f cs)" and "filter (\<lambda>c. f c \<le> d) cs \<noteq> []"
  shows "cs ! (length (filter (\<lambda>c. f c \<le> (d :: int)) cs) - 1) = last (filter (\<lambda>c. f c \<le> d) cs)"
proof -
  let ?tw = "takeWhile (\<lambda>c. f c \<le> d) cs"
  have tw: "?tw = filter (\<lambda>c. f c \<le> d) cs"
    using assms(1) by (rule takeWhile_le_sorted)
  with assms(2) have ne: "?tw \<noteq> []" by simp
  then have "length ?tw - 1 < length ?tw" by simp
  then have "cs ! (length ?tw - 1) = ?tw ! (length ?tw - 1)"
    by (rule takeWhile_nth [symmetric])
  also from ne have "\<dots> = last ?tw"
    by (simp add: last_conv_nth)
  finally show ?thesis
    by (simp only: tw)
qed

lemma candidates_split:
  "filter (\<lambda>c. c_available_date c \<le> date r) (filter (\<lambda>c. c_gvkey c = gvkey r) comp_tab)
     = candidates comp_tab r"
  by (simp add: candidates_def conj_commute)

lemma asof_backward_candidates:
  "asof_backward comp_tab (gvkey r) (date r)
     = (if candidates comp_tab r = [] then None else Some (last (candidates comp_tab r)))"
  by (simp add: asof_backward_def candidates_def split: list.splits)

lemma tier2_group_set:
  assumes "sorted (map c_available_date comp_tab)"
  shows "set (tier2_group crsp_ccm comp_tab g)
           = {matched r (last (candidates comp_tab r)) | r.
                r \<in> set crsp_ccm \<and> gvkey r = g \<and> candidates comp_tab r \<noteq> []}"
proof -
  let ?cs = "filter (\<lambda>c. c_gvkey c = g) comp_tab"
  from assms have srt: "sorted (map c_available_date ?cs)"
    by (rule sorted_filter)
  then have cs: "sort_key c_available_date ?cs = ?cs"
    by (rule sort_key_id_if_sorted)
  have row: "(if searchsorted_right (map c_available_date ?cs) (date r) = 0 then []
               else [matched r (?cs ! (searchsorted_right (map c_available_date ?cs) (date r) - 1))])
           = (if candidates comp_tab r = [] then [] else [matched r (last (candidates comp_tab r))])"
    if "gvkey r = g" for r
  proof -
    from that have c: "filter (\<lambda>c. c_available_date c \<le> date r) ?cs = candidates comp_tab r"
      using candidates_split [of r comp_tab] by simp
    have i: "searchsorted_right (map c_available_date ?cs) (date r) = length (candidates comp_tab r)"
      using searchsorted_right_sorted [OF srt, of "date r"] c by simp
    show ?thesis
    proof (cases "candidates comp_tab r = []")
      case True
      with i show ?thesis by simp
    next
      case False
      with c have "filter (\<lambda>c. c_available_date c \<le> date r) ?cs \<noteq> []" by simp
      from nth_before_insertion_point [OF srt this] c
      have "?cs ! (length (candidates comp_tab r) - 1) = last (candidates comp_tab r)"
        by simp
      with False i show ?thesis by simp
    qed
  qed
  have empty: "candidates comp_tab r = []" if "?cs = []" "gvkey r = g" for r
    using that candidates_split [of r comp_tab] by simp
  show ?thesis
  proof (cases "?cs = []")
    case True
    then show ?thesis
      using empty by (auto simp: tier2_group_def cs)
  next
    case False
    let ?xs = "sort_key date (filter (\<lambda>r. gvkey r = g) crsp_ccm)"
    have eq: "map (\<lambda>r. if searchsorted_right (map c_available_date ?cs) (date r) = 0 then []
               else [matched r (?cs ! (searchsorted_right (map c_available_date ?cs) (date r) - 1))]) ?xs
            = map (\<lambda>r. if candidates comp_tab r = [] then []
                        else [matched r (last (candidates comp_tab r))]) ?xs"
      by (rule map_cong [OF refl]) (simp add: row)
    have "tier2_group crsp_ccm comp_tab g
            = concat (map (\<lambda>r. if candidates comp_tab r = [] then []
                        else [matched r (last (candidates comp_tab r))]) ?xs)"
      unfolding tier2_group_def Let_def cs using False by (simp only: eq if_False)
    then show ?thesis
      by (auto split: if_splits)
  qed
qed

lemma set_unique: "set (unique xs) = set xs"
  unfolding unique_def
  by (induction "\<lambda>x :: 'a. x" xs rule: drop_duplicates.induct) auto

lemma tier2_rows_set:
  assumes "sorted (map c_available_date comp_tab)"
  shows "set (tier2_rows crsp_ccm comp_tab)
           = {matched r (last (candidates comp_tab r)) | r.
                r \<in> set crsp_ccm \<and> candidates comp_tab r \<noteq> []}"
  by (auto simp: tier2_rows_def set_unique tier2_group_set [OF assms])

lemma merge_asof_set:
  assumes "merge_asof left comp_tab tol = Inr m"
  shows "set (filter (\<lambda>r. notna (be r)) m)
           = {matched r (last (candidates comp_tab r)) | r.
                r \<in> set left \<and> candidates comp_tab r \<noteq> []
                \<and> date r - c_available_date (last (candidates comp_tab r)) \<le> tol
                \<and> notna (c_be (last (candidates comp_tab r)))}"
proof -
  let ?f = "\<lambda>r. if candidates comp_tab r = [] then unmatched r
                 else if date r - c_available_date (last (candidates comp_tab r)) \<le> tol
                      then matched r (last (candidates comp_tab r)) else unmatched r"
  from assms have "m = map (\<lambda>r. case asof_backward comp_tab (gvkey r) (date r) of
                           None \<Rightarrow> unmatched r
                         | Some c \<Rightarrow> if date r - c_available_date c \<le> tol then matched r c
                                     else unmatched r) left"
    by (simp add: merge_asof_def split: if_splits)
  then have m: "m = map ?f left"
    by (simp add: asof_backward_candidates cong: map_cong)
  have na: "\<not> notna (be (unmatched r))" for r
    by (simp add: unmatched_def notna_def)
  show ?thesis
    unfolding m by (auto simp: na)
qed

lemma merge_asof_rows:
  assumes "merge_asof left right tol = Inr m"
  shows "m = map (\<lambda>r. if candidates right r = [] then unmatched r
                       else if date r - c_available_date (last (candidates right r)) \<le> tol
                            then matched r (last (candidates right r)) else unmatched r) left"
    and "sorted (map c_available_date right)"
proof -
  from assms have "m = map (\<lambda>r. case asof_backward right (gvkey r) (date r) of
                           None \<Rightarrow> unmatched r
                         | Some c \<Rightarrow> if date r - c_available_date c \<le> tol then matched r c
                                     else unmatched r) left"
    by (auto simp: merge_asof_def split: if_splits)
  then show "m = map (\<lambda>r. if candidates right r = [] then unmatched r
                       else if date r - c_available_date (last (candidates right r)) \<le> tol
                            then matched r (last (candidates right r)) else unmatched r) left"
    by (simp add: asof_backward_candidates cong: map_cong)
  from assms show "sorted (map c_available_date right)"
    by (simp add: merge_asof_def split: if_splits)
qed

lemma sorted_last_max:
  assumes "sorted (map f xs)" and "x \<in> set xs"
  shows "f x \<le> (f (last xs) :: int)"
proof -
  from assms(2) obtain i where i: "i < length xs" and x: "x = xs ! i"
    by (auto simp: in_set_conv_nth)
  then have ne: "xs \<noteq> []" by auto
  from i have "i \<le> length xs - 1" by simp
  with assms(1) i ne have "map f xs ! i \<le> map f xs ! (length xs - 1)"
    by (intro sorted_nth_mono) simp_all
  with i ne x show ?thesis
    by (simp add: last_conv_nth)
qed

lemma rows_of_tier2: "rows_of (tier2 crsp_ccm comp_tab) = tier2_rows crsp_ccm comp_tab"
  by (simp add: tier2_def rows_of_def)

lemma strip_update_id:
  assumes "keys_stripped gvkey rows"
  shows "map (\<lambda>r. r\<lparr>gvkey := strip (gvkey r)\<rparr>) rows = rows"
  using assms by (induction rows) (simp_all add: keys_stripped_def)

lemma strip_update_comp_id:
  assumes "keys_stripped c_gvkey rows"
  shows "map (\<lambda>c. c\<lparr>c_gvkey := strip (c_gvkey c)\<rparr>) rows = rows"
  using assms by (induction rows) (simp_all add: keys_stripped_def)

text \<open>
  C2 (as the code has it). On clean tables (keys without surrounding whitespace, the
  statements sorted by key and availability date) that \<open>merge_asof\<close> accepts, tier 1
  returns every observation, in the order of (key, date): with the latest statement of
  its company that is available on its date when that statement is at most 1825 days
  older than the observation, and without book equity otherwise. Tier 2 returns exactly
  the observations that have an available statement, each with the latest one, at any
  age. The rows of tier 1 that carry a book equity are therefore the rows of tier 2 that
  carry one and are within the tolerance. Tier 3 is not part of the agreement: it assigns
  the book equity of a statement of the company whose \<open>datadate\<close> lies in the calendar year
  of the observation.
\<close>

theorem tier1_tier2_agree_within_tolerance:
  assumes "keys_stripped gvkey crsp_ccm" and "keys_stripped c_gvkey comp_tab"
    and "sorted (map (\<lambda>c. (c_gvkey c, c_available_date c)) comp_tab)"
    and "tier1 crsp_ccm comp_tab = Inr m1"
  shows "m1 = map (\<lambda>r. if candidates comp_tab r \<noteq> []
                          \<and> date r - c_available_date (last (candidates comp_tab r)) \<le> 365 * 5
                        then matched r (last (candidates comp_tab r)) else unmatched r)
                  (sort_key (\<lambda>r. (gvkey r, date r)) crsp_ccm)
         \<and> rows_of (tier2 crsp_ccm comp_tab) = tier2_rows crsp_ccm comp_tab
         \<and> set (tier2_rows crsp_ccm comp_tab)
             = {matched r (last (candidates comp_tab r)) | r.
                  r \<in> set crsp_ccm \<and> candidates comp_tab r \<noteq> []}
         \<and> (\<forall>r \<in> set crsp_ccm. \<forall>c \<in> set (candidates comp_tab r).
               c_available_date c \<le> c_available_date (last (candidates comp_tab r)))
         \<and> set (filter (\<lambda>r. notna (be r)) m1)
             = set (filter (\<lambda>r. notna (be r) \<and> within_tolerance (365 * 5) r)
                      (tier2_rows crsp_ccm comp_tab))
         \<and> (\<forall>m3. tier3 crsp_ccm comp_tab = Inr m3 \<longrightarrow>
               (\<forall>r \<in> set m3.
                  \<exists>c \<in> set comp_tab. c_gvkey c = gvkey r \<and> c_be c = be r
                     \<and> dt_year (datadate c) = dt_year (date r)))"
proof -
  let ?L = "sort_key (\<lambda>r. (gvkey r, date r)) crsp_ccm"
  have R: "sort_key (\<lambda>c. (c_gvkey c, c_available_date c)) comp_tab = comp_tab"
    using assms(3) by (rule sort_key_id_if_sorted)
  from assms(4) have ma: "merge_asof ?L comp_tab (365 * 5) = Inr m1"
    by (simp add: tier1_def Let_def strip_update_id [OF assms(1)]
        strip_update_comp_id [OF assms(2)] R split: if_splits)
  from merge_asof_rows [OF ma]
  have m1: "m1 = map (\<lambda>r. if candidates comp_tab r = [] then unmatched r
                       else if date r - c_available_date (last (candidates comp_tab r)) \<le> 365 * 5
                            then matched r (last (candidates comp_tab r)) else unmatched r) ?L"
    and srt: "sorted (map c_available_date comp_tab)"
    by simp_all
  have g1: "m1 = map (\<lambda>r. if candidates comp_tab r \<noteq> []
                          \<and> date r - c_available_date (last (candidates comp_tab r)) \<le> 365 * 5
                        then matched r (last (candidates comp_tab r)) else unmatched r) ?L"
    unfolding m1 by (rule map_cong [OF refl]) simp
  have g2: "rows_of (tier2 crsp_ccm comp_tab) = tier2_rows crsp_ccm comp_tab"
    by (rule rows_of_tier2)
  have g3: "set (tier2_rows crsp_ccm comp_tab)
             = {matched r (last (candidates comp_tab r)) | r.
                  r \<in> set crsp_ccm \<and> candidates comp_tab r \<noteq> []}"
    using srt by (rule tier2_rows_set)
  have g4: "\<forall>r \<in> set crsp_ccm. \<forall>c \<in> set (candidates comp_tab r).
               c_available_date c \<le> c_available_date (last (candidates comp_tab r))"
  proof (intro ballI)
    fix r c assume c: "c \<in> set (candidates comp_tab r)"
    have "sorted (map c_available_date (candidates comp_tab r))"
      unfolding candidates_def using srt by (rule sorted_filter)
    from sorted_last_max [OF this c]
    show "c_available_date c \<le> c_available_date (last (candidates comp_tab r))" .
  qed
  have "set (filter (\<lambda>r. notna (be r)) m1)
          = {matched r (last (candidates comp_tab r)) | r.
                r \<in> set crsp_ccm \<and> candidates comp_tab r \<noteq> []
                \<and> date r - c_available_date (last (candidates comp_tab r)) \<le> 365 * 5
                \<and> notna (c_be (last (candidates comp_tab r)))}"
    using merge_asof_set [OF ma] by simp
  also have "\<dots> = set (filter (\<lambda>r. notna (be r) \<and> within_tolerance (365 * 5) r)
                    (tier2_rows crsp_ccm comp_tab))"
    by (auto simp: tier2_rows_set [OF srt] within_tolerance_def)
  finally have g5: "set (filter (\<lambda>r. notna (be r)) m1)
           = set (filter (\<lambda>r. notna (be r) \<and> within_tolerance (365 * 5) r)
                    (tier2_rows crsp_ccm comp_tab))" .
  have g6: "\<forall>m3. tier3 crsp_ccm comp_tab = Inr m3 \<longrightarrow>
               (\<forall>r \<in> set m3.
                  \<exists>c \<in> set comp_tab. c_gvkey c = gvkey r \<and> c_be c = be r
                     \<and> dt_year (datadate c) = dt_year (date r))"
  proof (intro allI impI ballI)
    fix m3 r
    assume "tier3 crsp_ccm comp_tab = Inr m3" "r \<in> set m3"
    from tier3_row [OF this]
    show "\<exists>c \<in> set comp_tab. c_gvkey c = gvkey r \<and> c_be c = be r
            \<and> dt_year (datadate c) = dt_year (date r)"
      by blast
  qed
  show ?thesis
    apply (intro conjI)
         apply (fact g1)
        apply (fact g2)
       apply (fact g3)
      apply (fact g4)
     apply (fact g5)
    apply (fact g6)
    done
qed

theorem tier1_tier2_agree_within_tolerance_witness:
  "set (filter (\<lambda>r. notna (be r))
          (rows_of (tier1 (panel_of ex4_crsp ex4_link) (statements_of ex4_comp))))
     = set (filter (\<lambda>r. notna (be r) \<and> within_tolerance (365 * 5) r)
              (tier2_rows (panel_of ex4_crsp ex4_link) (statements_of ex4_comp)))
   \<and> map (\<lambda>r. (date r, be r))
       (filter (\<lambda>r. notna (be r))
          (rows_of (tier1 (panel_of ex4_crsp ex4_link) (statements_of ex4_comp))))
     = [(days_from_civil 2020 7 31, Fin 100)]
   \<and> map (\<lambda>r. (date r, be r))
       (rows_of (tier2 (panel_of ex4_crsp ex4_link) (statements_of ex4_comp)))
     = [(days_from_civil 2020 7 31, Fin 100), (days_from_civil 2027 1 29, Fin 200)]"
proof -
  let ?P = "panel_of ex4_crsp ex4_link" and ?S = "statements_of ex4_comp"
  have k1: "keys_stripped gvkey ?P" and k2: "keys_stripped c_gvkey ?S"
    and s: "sorted (map (\<lambda>c. (c_gvkey c, c_available_date c)) ?S)"
    and t: "tier1 ?P ?S = Inr (rows_of (tier1 ?P ?S))"
    by code_simp+
  have v: "map (\<lambda>r. (date r, be r)) (filter (\<lambda>r. notna (be r)) (rows_of (tier1 ?P ?S)))
             = [(days_from_civil 2020 7 31, Fin 100)]"
      "map (\<lambda>r. (date r, be r)) (rows_of (tier2 ?P ?S))
     = [(days_from_civil 2020 7 31, Fin 100), (days_from_civil 2027 1 29, Fin 200)]"
    by code_simp+
  note e = tier1_tier2_agree_within_tolerance [OF k1 k2 s t, THEN conjunct2, THEN conjunct2, THEN conjunct2,
      THEN conjunct2, THEN conjunct1]
  from e v show ?thesis
    by (intro conjI)
qed

text \<open>
  C2 (as the specification states it) fails on clean tables: one company, one security,
  the panel sorted and without duplicates, one statement per calendar year. For the
  observation of 2020-07-31 tiers 1 and 2 assign the book equity 100 of the statement for
  2019, tier 3 the 200 of the statement for 2020. The observation of 2027-01-29 is
  dropped by tier 1 (its latest statement is older than 1825 days) and by tier 3 (no
  statement is dated 2027), and kept by tier 2 with the book equity 200.

  The tables of the second example are clean as well, but \<open>merge_asof\<close> refuses them:
  sorted by (key, date), the dates of the panel are not ascending over the whole table.
  Tier 1 raises and assigns nothing; tier 2 assigns a book equity to both observations,
  each from a statement within the tolerance.

  In the third example the key of the statement carries a trailing blank. Tier 1 strips
  the keys and assigns the book equity 100 to the observation of 2020-07-31; tier 2
  compares the keys as they are and finds no statement for any observation.
\<close>

theorem tiers_differ_counterexample:
  "map (\<lambda>r. (date r, be r))
     (filter (\<lambda>r. notna (be r))
        (rows_of (tier1 (panel_of ex4_crsp ex4_link) (statements_of ex4_comp))))
     = [(days_from_civil 2020 7 31, Fin 100)]
   \<and> map (\<lambda>r. (date r, be r))
       (filter (\<lambda>r. notna (be r))
          (rows_of (tier2 (panel_of ex4_crsp ex4_link) (statements_of ex4_comp))))
     = [(days_from_civil 2020 7 31, Fin 100), (days_from_civil 2027 1 29, Fin 200)]
   \<and> map (\<lambda>r. (date r, be r))
       (filter (\<lambda>r. notna (be r))
          (rows_of (tier3 (panel_of ex4_crsp ex4_link) (statements_of ex4_comp))))
     = [(days_from_civil 2020 7 31, Fin 200)]
   \<and> sorted (map (\<lambda>r. (gvkey r, date r)) (panel_of ex4_crsp ex4_link))
   \<and> distinct (map (\<lambda>r. (gvkey r, date r)) (panel_of ex4_crsp ex4_link))
   \<and> sorted (map (\<lambda>c. (c_gvkey c, c_available_date c)) (statements_of ex4_comp))
   \<and> distinct (map comp_key_year (statements_of ex4_comp))
   \<and> tier1 (panel_of ex3_crsp ex3_link) (statements_of ex5_comp) = Inl KeysNotSorted
   \<and> map (\<lambda>r. (gvkey r, date r, be r, within_tolerance (365 * 5) r))
       (rows_of (tier2 (panel_of ex3_crsp ex3_link) (statements_of ex5_comp)))
     = [(''001000'', days_from_civil 2020 8 31, Fin 100, True),
        (''002000'', days_from_civil 2020 7 31, Fin 300, True)]
   \<and> keys_stripped gvkey (panel_of ex3_crsp ex3_link)
   \<and> keys_stripped c_gvkey (statements_of ex5_comp)
   \<and> sorted (map (\<lambda>r. (gvkey r, date r)) (panel_of ex3_crsp ex3_link))
   \<and> distinct (map (\<lambda>r. (gvkey r, date r)) (panel_of ex3_crsp ex3_link))
   \<and> sorted (map (\<lambda>c. (c_gvkey c, c_available_date c)) (statements_of ex5_comp))
   \<and> distinct (map comp_key_year (statements_of ex5_comp))
   \<and> map (\<lambda>r. (date r, be r))
       (filter (\<lambda>r. notna (be r))
          (rows_of (tier1 (panel_of ex4_crsp ex4_link) (statements_of ex6_comp))))
     = [(days_from_civil 2020 7 31, Fin 100)]
   \<and> tier2 (panel_of ex4_crsp ex4_link) (statements_of ex6_comp) = Inl NoMatch
   \<and> \<not> keys_stripped c_gvkey (statements_of ex6_comp)"
  by code_simp

subsection \<open>Several qualifying links\<close>

lemma rows_of_temporal_join:
  "rows_of (temporal_join a b) = filter (\<lambda>r. notna (be r)) (rows_of (join_ladder a b))"
  by (simp add: temporal_join_def rows_of_def Let_def split: sum.splits)

lemma set_prepare_comp_subset: "set (prepare_comp rows) \<subseteq> set rows"
  unfolding prepare_comp_def
  using set_drop_duplicates_subset [of "\<lambda>c. (c_gvkey c, c_available_date c)"
      "sort_key (\<lambda>c. (c_gvkey c, c_available_date c)) rows"]
  by simp

lemma statements_notna:
  assumes "s \<in> set (statements_of comp_data)"
  shows "notna (c_be s)"
proof -
  from assms set_prepare_comp_subset have "s \<in> set (process_comp comp_data)"
    unfolding statements_of_def by blast
  then obtain r where s: "s = with_book_equity r" and b: "fl_less (Fin 0) (be_of r)"
    by (auto simp: process_comp_def)
  from s have "c_be s = be_of r"
    by (simp add: with_book_equity_def comp_raw.defs)
  with b show ?thesis
    by (cases "be_of r") (simp_all add: notna_def)
qed

lemma length_filter_map_cong:
  assumes "\<And>x. x \<in> set xs \<Longrightarrow> Q' (f x) = Q x"
  shows "length (filter Q' (map f xs)) = length (filter Q xs)"
  using assms by (induction xs) auto

lemma filter_filter_id:
  assumes "\<And>x. x \<in> set xs \<Longrightarrow> Q x \<Longrightarrow> R x"
  shows "filter Q (filter R xs) = filter Q xs"
  using assms by (induction xs) auto

lemma length_filter_filter_le: "length (filter Q (filter R xs)) \<le> length (filter Q xs)"
  by (induction xs) auto

lemma drop_duplicates_keeps:
  assumes "\<And>x. x \<in> set xs \<Longrightarrow> Q x \<Longrightarrow> length (filter (\<lambda>y. key y = key x) xs) \<le> 1"
  shows "filter Q (drop_duplicates key xs) = filter Q xs"
  using assms
proof (induction key xs rule: drop_duplicates.induct)
  case (1 key)
  then show ?case by simp
next
  case (2 key x xs)
  let ?ys = "filter (\<lambda>y. key y \<noteq> key x) xs"
  have "filter Q (drop_duplicates key ?ys) = filter Q ?ys"
  proof (rule "2.IH")
    fix y assume y: "y \<in> set ?ys" and q: "Q y"
    then have "length (filter (\<lambda>z. key z = key y) (x # xs)) \<le> 1"
      by (intro "2.prems") simp_all
    moreover from y have "length (filter (\<lambda>z. key z = key y) (x # xs))
        = length (filter (\<lambda>z. key z = key y) xs)"
      by auto
    moreover have "length (filter (\<lambda>z. key z = key y) ?ys) \<le> length (filter (\<lambda>z. key z = key y) xs)"
      by (rule length_filter_filter_le)
    ultimately show "length (filter (\<lambda>z. key z = key y) ?ys) \<le> 1"
      by linarith
  qed
  moreover have "filter Q ?ys = filter Q xs"
  proof (rule filter_filter_id)
    fix z assume z: "z \<in> set xs" and q: "Q z"
    show "key z \<noteq> key x"
    proof
      assume e: "key z = key x"
      from z q have "length (filter (\<lambda>y. key y = key z) (x # xs)) \<le> 1"
        by (intro "2.prems") simp_all
      moreover from z have "filter (\<lambda>y. key y = key z) xs \<noteq> []"
        by (auto simp: filter_empty_conv)
      then have "0 < length (filter (\<lambda>y. key y = key z) xs)"
        by simp
      ultimately show False
        using e by simp
    qed
  qed
  ultimately show ?case by simp
qed

lemma prepare_crsp_ccm_keeps:
  assumes "\<And>r. r \<in> set rows \<Longrightarrow> Q r \<Longrightarrow>
             length (filter (\<lambda>y. (gvkey y, date y) = (gvkey r, date r)) rows) \<le> 1"
  shows "filter Q (prepare_crsp_ccm rows) = filter Q (sort_key (\<lambda>r. (gvkey r, date r)) rows)"
  unfolding prepare_crsp_ccm_def
proof (rule drop_duplicates_keeps)
  fix x assume "x \<in> set (sort_key (\<lambda>r. (gvkey r, date r)) rows)" and "Q x"
  then have "length (filter (\<lambda>y. (gvkey y, date y) = (gvkey x, date x)) rows) \<le> 1"
    by (intro assms) simp_all
  then show "length (filter (\<lambda>y. (gvkey y, date y) = (gvkey x, date x))
                 (sort_key (\<lambda>r. (gvkey r, date r)) rows)) \<le> 1"
    by (simp only: length_filter_sort_key)
qed

lemma tier1_fresh_rows:
  assumes t: "tier1 P S = Inr m1"
    and fresh: "\<And>r. r \<in> set P \<Longrightarrow> permno r = p \<Longrightarrow> date r = d \<Longrightarrow> has_fresh (365 * 5) S r"
    and na: "\<And>s. s \<in> set S \<Longrightarrow> notna (c_be s)"
  shows "length (filter (\<lambda>m. (permno m = p \<and> date m = d) \<and> notna (be m)) m1)
           = length (filter (\<lambda>r. permno r = p \<and> date r = d) P)"
    and "\<And>r. r \<in> set P \<Longrightarrow> permno r = p \<Longrightarrow> date r = d \<Longrightarrow>
           \<exists>m \<in> set m1. permno m = p \<and> date m = d \<and> gvkey m = strip (gvkey r) \<and> notna (be m)"
proof -
  define su where "su = (\<lambda>r :: ccm_row. r\<lparr>gvkey := strip (gvkey r)\<rparr>)"
  define cs where "cs = (\<lambda>c :: comp_row. c\<lparr>c_gvkey := strip (c_gvkey c)\<rparr>)"
  define L where "L = sort_key (\<lambda>r. (gvkey r, date r)) (map su P)"
  define R where "R = sort_key (\<lambda>c. (c_gvkey c, c_available_date c)) (map cs S)"
  define f where "f = (\<lambda>r. if candidates R r = [] then unmatched r
                 else if date r - c_available_date (last (candidates R r)) \<le> 365 * 5
                      then matched r (last (candidates R r)) else unmatched r)"
  have su: "permno (su r) = permno r" "date (su r) = date r" "gvkey (su r) = strip (gvkey r)" for r
    by (simp_all add: su_def)
  have cs: "c_gvkey (cs c) = strip (c_gvkey c)" "c_available_date (cs c) = c_available_date c"
      "c_be (cs c) = c_be c" for c
    by (simp_all add: cs_def)
  from t have ma: "merge_asof L R (365 * 5) = Inr m1"
    by (auto simp: tier1_def Let_def L_def R_def su_def cs_def split: if_splits)
  from merge_asof_rows [OF ma] have m1: "m1 = map f L"
    and srt: "sorted (map c_available_date R)"
    by (simp_all add: f_def)
  have sel: "permno (f x) = permno x" "date (f x) = date x" "gvkey (f x) = gvkey x" for x
    by (simp_all add: f_def unmatched_def)
  have row: "f (su r) = matched (su r) (last (candidates R (su r)))
               \<and> notna (c_be (last (candidates R (su r))))"
    if r: "r \<in> set P" "permno r = p" "date r = d" for r
  proof -
    from fresh [OF r] obtain s where s: "s \<in> set S" "c_gvkey s = gvkey r"
        "c_available_date s \<le> date r" "date r - c_available_date s \<le> 365 * 5"
      by (auto simp: has_fresh_def list_ex_iff)
    from s(1) have "cs s \<in> set R"
      by (simp add: R_def)
    with s(2,3) have mem: "cs s \<in> set (candidates R (su r))"
      unfolding candidates_def by (simp add: su cs)
    then have ne: "candidates R (su r) \<noteq> []"
      by auto
    have "sorted (map c_available_date (candidates R (su r)))"
      unfolding candidates_def using srt by (rule sorted_filter)
    from sorted_last_max [OF this mem]
    have "c_available_date s \<le> c_available_date (last (candidates R (su r)))"
      by (simp add: cs)
    with s(4) have tol: "date (su r) - c_available_date (last (candidates R (su r))) \<le> 365 * 5"
      by (simp add: su)
    from ne have "last (candidates R (su r)) \<in> set (candidates R (su r))"
      by (rule last_in_set)
    then have "last (candidates R (su r)) \<in> set R"
      by (simp add: candidates_def)
    then obtain s' where "s' \<in> set S" "last (candidates R (su r)) = cs s'"
      by (auto simp: R_def)
    with na [of s'] have "notna (c_be (last (candidates R (su r))))"
      by (simp add: cs)
    with ne tol show ?thesis
      by (simp add: f_def)
  qed
  have "length (filter (\<lambda>m. (permno m = p \<and> date m = d) \<and> notna (be m)) (map f L))
          = length (filter (\<lambda>r. permno r = p \<and> date r = d) L)"
  proof (rule length_filter_map_cong)
    fix x assume "x \<in> set L"
    then obtain r where r: "r \<in> set P" and x: "x = su r"
      by (auto simp: L_def)
    show "((permno (f x) = p \<and> date (f x) = d) \<and> notna (be (f x)))
            = (permno x = p \<and> date x = d)"
    proof (cases "permno x = p \<and> date x = d")
      case True
      with x have "permno r = p" "date r = d" by (simp_all add: su)
      from row [OF r this] have "notna (be (f x))"
        by (simp add: x)
      with True show ?thesis by (simp add: sel)
    next
      case False
      then show ?thesis by (auto simp: sel)
    qed
  qed
  also have "\<dots> = length (filter (\<lambda>r. permno r = p \<and> date r = d) (map su P))"
    unfolding L_def by (rule length_filter_sort_key)
  also have "\<dots> = length (filter (\<lambda>r. permno r = p \<and> date r = d) P)"
    by (rule length_filter_map_cong) (simp add: su)
  finally show "length (filter (\<lambda>m. (permno m = p \<and> date m = d) \<and> notna (be m)) m1)
           = length (filter (\<lambda>r. permno r = p \<and> date r = d) P)"
    by (simp only: m1)
  fix r assume r: "r \<in> set P" "permno r = p" "date r = d"
  from r(1) have "f (su r) \<in> set m1"
    unfolding m1 by (simp add: L_def)
  moreover from row [OF r] have "notna (be (f (su r)))"
    by simp
  moreover from r(2,3) have "permno (f (su r)) = p" "date (f (su r)) = d"
      "gvkey (f (su r)) = strip (gvkey r)"
    by (simp_all add: sel su)
  ultimately show "\<exists>m \<in> set m1. permno m = p \<and> date m = d \<and> gvkey m = strip (gvkey r)
                     \<and> notna (be m)"
    by blast
qed

lemma concat_map_if: "concat (map (\<lambda>x. if Q x then [f x] else []) xs) = map f (filter Q xs)"
  by (induction xs) simp_all

lemma filter_filter_commute: "filter Q (filter G xs) = filter G (filter Q xs)"
  by (induction xs) auto

lemma tier2_group_fresh_rows:
  assumes fresh: "\<And>r. r \<in> set P \<Longrightarrow> permno r = p \<Longrightarrow> date r = d \<Longrightarrow> has_fresh tol S r"
    and na: "\<And>s. s \<in> set S \<Longrightarrow> notna (c_be s)"
  shows "length (filter (\<lambda>m. (permno m = p \<and> date m = d) \<and> notna (be m)) (tier2_group P S g))
           = length (filter (\<lambda>r. gvkey r = g) (filter (\<lambda>r. permno r = p \<and> date r = d) P))"
    and "\<And>r. r \<in> set P \<Longrightarrow> gvkey r = g \<Longrightarrow> permno r = p \<Longrightarrow> date r = d \<Longrightarrow>
           \<exists>m \<in> set (tier2_group P S g). permno m = p \<and> date m = d \<and> gvkey m = gvkey r
              \<and> notna (be m)"
proof -
  define cs where "cs = sort_key c_available_date (filter (\<lambda>c. c_gvkey c = g) S)"
  define i where "i = (\<lambda>r :: ccm_row. searchsorted_right (map c_available_date cs) (date r))"
  define xs where "xs = sort_key date (filter (\<lambda>r. gvkey r = g) P)"
  define h where "h = (\<lambda>r. if i r = 0 then [] else [matched r (cs ! (i r - 1))])"
  have unf: "tier2_group P S g = (if cs = [] then [] else concat (map h xs))"
    unfolding tier2_group_def h_def i_def cs_def xs_def Let_def by (rule refl)
  have grp: "tier2_group P S g = concat (map h xs)"
  proof (cases "cs = []")
    case True
    then have "i r = 0" for r
      by (simp add: i_def searchsorted_right_def)
    then have "concat (map h xs) = []"
      by (simp add: h_def)
    with True unf show ?thesis
      by simp
  next
    case False
    with unf show ?thesis
      by simp
  qed
  have srt: "sorted (map c_available_date cs)"
    by (simp add: cs_def)
  have i: "i r = length (filter (\<lambda>c. c_available_date c \<le> date r) cs)" for r
    unfolding i_def using srt by (rule searchsorted_right_sorted)
  have pick: "0 < i r \<and> notna (c_be (cs ! (i r - 1)))"
    if r: "r \<in> set P" "gvkey r = g" "permno r = p" "date r = d" for r
  proof -
    from fresh [OF r(1,3,4)] obtain s where s: "s \<in> set S" "c_gvkey s = gvkey r"
        "c_available_date s \<le> date r"
      by (auto simp: has_fresh_def list_ex_iff)
    with r(2) have "s \<in> set (filter (\<lambda>c. c_available_date c \<le> date r) cs)"
      by (simp add: cs_def)
    then have "filter (\<lambda>c. c_available_date c \<le> date r) cs \<noteq> []"
      by (metis empty_iff list.set(1))
    then have pos: "0 < i r"
      by (simp add: i)
    have "i r \<le> length cs"
      unfolding i by (rule length_filter_le)
    with pos have "i r - 1 < length cs"
      by simp
    then have "cs ! (i r - 1) \<in> set cs"
      by (rule nth_mem)
    then have "cs ! (i r - 1) \<in> set S"
      by (simp add: cs_def)
    with na pos show ?thesis
      by simp
  qed
  have "filter (\<lambda>m. (permno m = p \<and> date m = d) \<and> notna (be m)) (concat (map h xs))
          = concat (map (\<lambda>r. filter (\<lambda>m. (permno m = p \<and> date m = d) \<and> notna (be m)) (h r)) xs)"
    by (simp add: filter_concat comp_def)
  also have "\<dots> = concat (map (\<lambda>r. if permno r = p \<and> date r = d
                                     then [matched r (cs ! (i r - 1))] else []) xs)"
  proof (rule arg_cong [where f = concat], rule map_cong [OF refl])
    fix r assume "r \<in> set xs"
    then have r: "r \<in> set P" "gvkey r = g"
      by (simp_all add: xs_def)
    show "filter (\<lambda>m. (permno m = p \<and> date m = d) \<and> notna (be m)) (h r)
            = (if permno r = p \<and> date r = d then [matched r (cs ! (i r - 1))] else [])"
    proof (cases "permno r = p \<and> date r = d")
      case True
      with pick [OF r] show ?thesis
        by (simp add: h_def)
    next
      case False
      then show ?thesis
        by (auto simp: h_def)
    qed
  qed
  also have "\<dots> = map (\<lambda>r. matched r (cs ! (i r - 1))) (filter (\<lambda>r. permno r = p \<and> date r = d) xs)"
    by (rule concat_map_if)
  finally have "length (filter (\<lambda>m. (permno m = p \<and> date m = d) \<and> notna (be m)) (tier2_group P S g))
                  = length (filter (\<lambda>r. permno r = p \<and> date r = d) xs)"
    by (simp add: grp)
  also have "\<dots> = length (filter (\<lambda>r. permno r = p \<and> date r = d) (filter (\<lambda>r. gvkey r = g) P))"
    unfolding xs_def by (rule length_filter_sort_key)
  finally show "length (filter (\<lambda>m. (permno m = p \<and> date m = d) \<and> notna (be m)) (tier2_group P S g))
           = length (filter (\<lambda>r. gvkey r = g) (filter (\<lambda>r. permno r = p \<and> date r = d) P))"
    by (simp only: filter_filter_commute)
  fix r assume r: "r \<in> set P" "gvkey r = g" "permno r = p" "date r = d"
  then have "r \<in> set xs"
    by (simp add: xs_def)
  with pick [OF r] have "matched r (cs ! (i r - 1)) \<in> set (tier2_group P S g)"
    unfolding grp by (auto simp: h_def)
  moreover from pick [OF r] r(3,4)
  have "permno (matched r (cs ! (i r - 1))) = p \<and> date (matched r (cs ! (i r - 1))) = d
          \<and> gvkey (matched r (cs ! (i r - 1))) = gvkey r
          \<and> notna (be (matched r (cs ! (i r - 1))))"
    by simp
  ultimately show "\<exists>m \<in> set (tier2_group P S g). permno m = p \<and> date m = d \<and> gvkey m = gvkey r
                     \<and> notna (be m)"
    by blast
qed

lemma sum_list_indicator:
  assumes "distinct gs"
  shows "sum_list (map (\<lambda>g. if v = g then (1 :: nat) else 0) gs) = (if v \<in> set gs then 1 else 0)"
  using assms by (induction gs) auto

lemma partition_count:
  assumes "distinct gs" and "key ` set xs \<subseteq> set gs"
  shows "sum_list (map (\<lambda>g. length (filter (\<lambda>x. key x = g) xs)) gs) = length xs"
  using assms(2)
proof (induction xs)
  case Nil
  then show ?case by simp
next
  case (Cons x xs)
  have "sum_list (map (\<lambda>g. length (filter (\<lambda>y. key y = g) (x # xs))) gs)
          = sum_list (map (\<lambda>g. (if key x = g then 1 else 0) + length (filter (\<lambda>y. key y = g) xs)) gs)"
    by (rule arg_cong [where f = sum_list], rule map_cong [OF refl]) simp
  also have "\<dots> = sum_list (map (\<lambda>g. if key x = g then 1 else 0) gs)
                     + sum_list (map (\<lambda>g. length (filter (\<lambda>y. key y = g) xs)) gs)"
    by (rule sum_list_addf)
  also have "\<dots> = 1 + length xs"
    using Cons sum_list_indicator [OF assms(1), of "key x"] by simp
  finally show ?case by simp
qed

lemma distinct_unique: "distinct (unique xs)"
  using distinct_drop_duplicates [of "\<lambda>x. x" xs] by (simp add: unique_def)

lemma tier2_fresh_rows:
  assumes fresh: "\<And>r. r \<in> set P \<Longrightarrow> permno r = p \<Longrightarrow> date r = d \<Longrightarrow> has_fresh tol S r"
    and na: "\<And>s. s \<in> set S \<Longrightarrow> notna (c_be s)"
  shows "length (filter (\<lambda>m. (permno m = p \<and> date m = d) \<and> notna (be m)) (tier2_rows P S))
           = length (filter (\<lambda>r. permno r = p \<and> date r = d) P)"
    and "\<And>r. r \<in> set P \<Longrightarrow> permno r = p \<Longrightarrow> date r = d \<Longrightarrow>
           \<exists>m \<in> set (tier2_rows P S). permno m = p \<and> date m = d \<and> gvkey m = gvkey r
              \<and> notna (be m)"
proof -
  let ?gs = "unique (map gvkey P)"
  have "length (filter (\<lambda>m. (permno m = p \<and> date m = d) \<and> notna (be m)) (tier2_rows P S))
          = sum_list (map (\<lambda>g. length (filter (\<lambda>m. (permno m = p \<and> date m = d) \<and> notna (be m))
                                          (tier2_group P S g))) ?gs)"
    by (simp add: tier2_rows_def filter_concat length_concat comp_def)
  also have "\<dots> = sum_list (map (\<lambda>g. length (filter (\<lambda>r. gvkey r = g)
                                  (filter (\<lambda>r. permno r = p \<and> date r = d) P))) ?gs)"
    by (simp only: tier2_group_fresh_rows(1) [OF fresh na])
  also have "\<dots> = length (filter (\<lambda>r. permno r = p \<and> date r = d) P)"
    by (rule partition_count [OF distinct_unique]) (auto simp: set_unique)
  finally show "length (filter (\<lambda>m. (permno m = p \<and> date m = d) \<and> notna (be m)) (tier2_rows P S))
           = length (filter (\<lambda>r. permno r = p \<and> date r = d) P)" .
  fix r assume r: "r \<in> set P" "permno r = p" "date r = d"
  from tier2_group_fresh_rows(2) [OF fresh na r(1) refl r(2,3)]
  obtain m where "m \<in> set (tier2_group P S (gvkey r))" "permno m = p \<and> date m = d
      \<and> gvkey m = gvkey r \<and> notna (be m)"
    by blast
  moreover from r(1) have "gvkey r \<in> set ?gs"
    by (simp add: set_unique)
  ultimately show "\<exists>m \<in> set (tier2_rows P S). permno m = p \<and> date m = d \<and> gvkey m = gvkey r
                     \<and> notna (be m)"
    unfolding tier2_rows_def by auto
qed

lemma filter_filter_conj: "filter Q (filter N xs) = filter (\<lambda>x. Q x \<and> N x) xs"
  by (induction xs) auto

lemma joined_fresh_rows:
  assumes fresh: "\<And>r. r \<in> set P \<Longrightarrow> permno r = p \<Longrightarrow> date r = d \<Longrightarrow> has_fresh (365 * 5) S r"
    and na: "\<And>s. s \<in> set S \<Longrightarrow> notna (c_be s)"
    and ne: "filter (\<lambda>r. permno r = p \<and> date r = d) P \<noteq> []"
  shows "length (filter (\<lambda>m. permno m = p \<and> date m = d) (rows_of (temporal_join P S)))
           = length (filter (\<lambda>r. permno r = p \<and> date r = d) P)"
    and "\<And>r. r \<in> set P \<Longrightarrow> permno r = p \<Longrightarrow> date r = d \<Longrightarrow>
           \<exists>m \<in> set (rows_of (temporal_join P S)). permno m = p \<and> date m = d
              \<and> (gvkey m = gvkey r \<or> gvkey m = strip (gvkey r)) \<and> notna (be m)"
proof -
  define J0 where "J0 = rows_of (join_ladder P S)"
  have J: "rows_of (temporal_join P S) = filter (\<lambda>r. notna (be r)) J0"
    unfolding J0_def by (rule rows_of_temporal_join)
  have key: "length (filter (\<lambda>m. (permno m = p \<and> date m = d) \<and> notna (be m)) J0)
               = length (filter (\<lambda>r. permno r = p \<and> date r = d) P)
             \<and> (\<forall>r \<in> set P. permno r = p \<longrightarrow> date r = d \<longrightarrow>
                   (\<exists>m \<in> set J0. permno m = p \<and> date m = d
                       \<and> (gvkey m = gvkey r \<or> gvkey m = strip (gvkey r)) \<and> notna (be m)))"
  proof (cases "tier1 P S")
    case (Inr m1)
    then have j: "J0 = m1"
      by (simp add: J0_def join_ladder_def rows_of_def)
    have "\<exists>m \<in> set m1. permno m = p \<and> date m = d
             \<and> (gvkey m = gvkey r \<or> gvkey m = strip (gvkey r)) \<and> notna (be m)"
      if "r \<in> set P" "permno r = p" "date r = d" for r
      using tier1_fresh_rows(2) [OF Inr fresh na that] by blast
    with tier1_fresh_rows(1) [OF Inr fresh na] show ?thesis
      unfolding j by blast
  next
    case e1: (Inl e1)
    have cnt: "length (filter (\<lambda>m. (permno m = p \<and> date m = d) \<and> notna (be m)) (tier2_rows P S))
                 = length (filter (\<lambda>r. permno r = p \<and> date r = d) P)"
      using fresh na by (rule tier2_fresh_rows(1))
    with ne have "tier2_rows P S \<noteq> []"
      by auto
    then have "tier2 P S = Inr (tier2_rows P S)"
      by (simp add: tier2_def)
    with e1 have j: "J0 = tier2_rows P S"
      by (simp add: J0_def join_ladder_def rows_of_def)
    have "\<exists>m \<in> set (tier2_rows P S). permno m = p \<and> date m = d
             \<and> (gvkey m = gvkey r \<or> gvkey m = strip (gvkey r)) \<and> notna (be m)"
      if "r \<in> set P" "permno r = p" "date r = d" for r
      using tier2_fresh_rows(2) [OF fresh na that] by blast
    with cnt show ?thesis
      unfolding j by blast
  qed
  from key show "length (filter (\<lambda>m. permno m = p \<and> date m = d) (rows_of (temporal_join P S)))
           = length (filter (\<lambda>r. permno r = p \<and> date r = d) P)"
    by (simp only: J filter_filter_conj)
  fix r assume "r \<in> set P" "permno r = p" "date r = d"
  with key obtain m where "m \<in> set J0" "permno m = p \<and> date m = d
      \<and> (gvkey m = gvkey r \<or> gvkey m = strip (gvkey r)) \<and> notna (be m)"
    by blast
  then show "\<exists>m \<in> set (rows_of (temporal_join P S)). permno m = p \<and> date m = d
              \<and> (gvkey m = gvkey r \<or> gvkey m = strip (gvkey r)) \<and> notna (be m)"
    unfolding J by auto
qed

lemma indicators_count:
  "length (filter (\<lambda>r. permno r = p \<and> date r = d) (indicators J))
     = length (filter (\<lambda>r. permno r = p \<and> date r = d) J)"
proof -
  define df where "df = sort_key (\<lambda>r. (permno r, date r)) J"
  have "indicators J = map (indicator_row df) [0..<length df]"
    by (simp add: indicators_def Let_def df_def)
  then have "length (filter (\<lambda>r. permno r = p \<and> date r = d) (indicators J))
      = length (filter (\<lambda>r. permno r = p \<and> date r = d) (map (indicator_row df) [0..<length df]))"
    by simp
  also have "\<dots> = length (filter (\<lambda>i. permno (df ! i) = p \<and> date (df ! i) = d) [0..<length df])"
    by (rule length_filter_map_cong) simp
  also have "\<dots> = length (filter (\<lambda>r. permno r = p \<and> date r = d) (map (\<lambda>i. df ! i) [0..<length df]))"
    by (rule length_filter_map_cong [symmetric]) simp
  also have "\<dots> = length (filter (\<lambda>r. permno r = p \<and> date r = d) df)"
    by (simp only: map_nth)
  also have "\<dots> = length (filter (\<lambda>r. permno r = p \<and> date r = d) J)"
    unfolding df_def by (rule length_filter_sort_key)
  finally show ?thesis .
qed

lemma length_filter_mono:
  assumes "\<And>x. x \<in> set xs \<Longrightarrow> Q x \<Longrightarrow> M x"
  shows "length (filter Q xs) \<le> length (filter M xs)"
  using assms by (induction xs) auto

lemma indicators_year_month:
  assumes "r \<in> set (indicators J)"
  shows "(year r, month r) = year_month (date r)"
proof -
  from assms obtain i where "r = indicator_row (sort_key (\<lambda>r. (permno r, date r)) J) i"
    by (rule in_indicators)
  then show ?thesis
    by (simp add: year_month_def)
qed

lemma rows_of_Inr: "rows_of x \<noteq> [] \<Longrightarrow> x = Inr (rows_of x)"
  by (cases x) (simp_all add: rows_of_def)

text \<open>
  C10 (as the code has it). Let the link table hold \<open>k \<ge> 1\<close> records of the \<open>permno\<close> of
  an observation whose interval contains its date. The link-merged panel holds exactly
  \<open>k\<close> rows for that (permno, date), one per qualifying record and in the order of the
  link table. If each of these rows is the only row of the link-merged panel with its
  (gvkey, date), and the company of each of the \<open>k\<close> records has a statement that is
  available on the date of the observation and at most 1825 days older, then the joined
  panel holds exactly \<open>k\<close> rows for that (permno, date), one per qualifying record, each
  with a book equity; \<open>calculate_indicators\<close> returns; the \<open>k\<close> rows are among the derived
  rows; and \<open>n\<close> is, on every derived row of the month of the observation, the number of
  joined rows of that month, which is at least \<open>k\<close>. The final panel keeps the derived
  rows in which \<open>ret\<close>, \<open>size\<close> and \<open>bm\<close> are present.
\<close>

theorem link_rows_counted:
  assumes "distinct (map (\<lambda>x. (permno x, date x)) crsp_data)" and "c \<in> set crsp_data"
    and "qualifying ccm_link c \<noteq> []"
    and "\<forall>l \<in> set (qualifying ccm_link c).
           length (filter (\<lambda>r. gvkey r = l_gvkey l \<and> date r = date c)
                     (crsp_ccm_of crsp_data ccm_link)) = 1"
    and "\<forall>l \<in> set (qualifying ccm_link c).
           has_fresh (365 * 5) (statements_of comp_data) (attach_link c l)"
  shows "filter (\<lambda>r. permno r = permno c \<and> date r = date c) (crsp_ccm_of crsp_data ccm_link)
           = map (attach_link c) (qualifying ccm_link c)
         \<and> length (filter (\<lambda>r. permno r = permno c \<and> date r = date c)
                     (joined_panel crsp_data comp_data ccm_link))
             = length (qualifying ccm_link c)
         \<and> (\<forall>l \<in> set (qualifying ccm_link c).
               \<exists>r \<in> set (joined_panel crsp_data comp_data ccm_link).
                  permno r = permno c \<and> date r = date c
                  \<and> (gvkey r = l_gvkey l \<or> gvkey r = strip (l_gvkey l)) \<and> notna (be r))
         \<and> calculate_indicators crsp_data comp_data ccm_link
             = Inr (final_stats_of (indicators (joined_panel crsp_data comp_data ccm_link)))
         \<and> length (filter (\<lambda>r. permno r = permno c \<and> date r = date c)
                     (indicators (joined_panel crsp_data comp_data ccm_link)))
             = length (qualifying ccm_link c)
         \<and> (\<forall>r \<in> set (indicators (joined_panel crsp_data comp_data ccm_link)).
               year_month (date r) = year_month (date c) \<longrightarrow>
                 n_c r = length (filter (\<lambda>m. year_month (date m) = year_month (date c))
                                   (joined_panel crsp_data comp_data ccm_link))
                 \<and> length (qualifying ccm_link c) \<le> n_c r)"
proof -
  let ?CC = "crsp_ccm_of crsp_data ccm_link"
  let ?P = "prepare_crsp_ccm ?CC"
  let ?S = "statements_of comp_data"
  let ?J = "joined_panel crsp_data comp_data ccm_link"
  let ?k = "length (qualifying ccm_link c)"
  have J: "?J = rows_of (temporal_join ?P ?S)"
    by (simp only: joined_panel_def)
  have F1: "filter (\<lambda>r. permno r = permno c \<and> date r = date c) ?CC
              = map (attach_link c) (qualifying ccm_link c)"
    using assms(1,2) by (rule link_rows_of_obs)
  have obs: "\<exists>l \<in> set (qualifying ccm_link c). r = attach_link c l"
    if "r \<in> set ?CC" "permno r = permno c" "date r = date c" for r
  proof -
    from that have "r \<in> set (filter (\<lambda>r. permno r = permno c \<and> date r = date c) ?CC)"
      by simp
    then have "r \<in> set (map (attach_link c) (qualifying ccm_link c))"
      by (simp only: F1)
    then show ?thesis
      by (simp add: image_iff)
  qed
  have keep: "filter (\<lambda>r. permno r = permno c \<and> date r = date c) ?P
                = filter (\<lambda>r. permno r = permno c \<and> date r = date c)
                    (sort_key (\<lambda>r. (gvkey r, date r)) ?CC)"
  proof (rule prepare_crsp_ccm_keeps)
    fix r assume r: "r \<in> set ?CC" and q: "permno r = permno c \<and> date r = date c"
    from q have "permno r = permno c" "date r = date c"
      by simp_all
    from obs [OF r this] obtain l where l: "l \<in> set (qualifying ccm_link c)" "r = attach_link c l"
      by blast
    from assms(4) l(1)
    have "length (filter (\<lambda>y. gvkey y = l_gvkey l \<and> date y = date c) ?CC) = 1"
      by (rule bspec)
    with l(2) show "length (filter (\<lambda>y. (gvkey y, date y) = (gvkey r, date r)) ?CC) \<le> 1"
      by simp
  qed
  have cnt: "length (filter (\<lambda>r. permno r = permno c \<and> date r = date c) ?P) = ?k"
    by (simp only: keep length_filter_sort_key F1 length_map)
  have inP: "r \<in> set ?P" if "r \<in> set ?CC" "permno r = permno c" "date r = date c" for r
  proof -
    from that have "r \<in> set (filter (\<lambda>r. permno r = permno c \<and> date r = date c)
                            (sort_key (\<lambda>r. (gvkey r, date r)) ?CC))"
      by simp
    then have "r \<in> set (filter (\<lambda>r. permno r = permno c \<and> date r = date c) ?P)"
      by (simp only: keep)
    then show ?thesis
      by simp
  qed
  have inCC: "r \<in> set ?CC" if "r \<in> set ?P" for r
  proof -
    from that have "r \<in> set (sort_key (\<lambda>r. (gvkey r, date r)) ?CC)"
      unfolding prepare_crsp_ccm_def using set_drop_duplicates_subset by fastforce
    then show ?thesis
      by simp
  qed
  have fresh: "has_fresh (365 * 5) ?S r"
    if "r \<in> set ?P" "permno r = permno c" "date r = date c" for r
  proof -
    from that(1) have "r \<in> set ?CC"
      by (rule inCC)
    from obs [OF this that(2,3)] obtain l where l: "l \<in> set (qualifying ccm_link c)"
        "r = attach_link c l"
      by blast
    from assms(5) l(1) have "has_fresh (365 * 5) ?S (attach_link c l)"
      by (rule bspec)
    with l(2) show ?thesis
      by simp
  qed
  have na: "notna (c_be s)" if "s \<in> set ?S" for s
    using that by (rule statements_notna)
  from assms(3) cnt have ne: "filter (\<lambda>r. permno r = permno c \<and> date r = date c) ?P \<noteq> []"
    by (metis length_0_conv)
  have "length (filter (\<lambda>m. permno m = permno c \<and> date m = date c) (rows_of (temporal_join ?P ?S)))
          = length (filter (\<lambda>r. permno r = permno c \<and> date r = date c) ?P)"
    using fresh na ne by (rule joined_fresh_rows(1))
  then have g2: "length (filter (\<lambda>r. permno r = permno c \<and> date r = date c) ?J) = ?k"
    by (simp only: J cnt)
  have g3: "\<forall>l \<in> set (qualifying ccm_link c).
               \<exists>r \<in> set ?J. permno r = permno c \<and> date r = date c
                  \<and> (gvkey r = l_gvkey l \<or> gvkey r = strip (l_gvkey l)) \<and> notna (be r)"
  proof
    fix l assume l: "l \<in> set (qualifying ccm_link c)"
    then have "attach_link c l \<in> set (map (attach_link c) (qualifying ccm_link c))"
      by simp
    then have "attach_link c l \<in> set (filter (\<lambda>r. permno r = permno c \<and> date r = date c) ?CC)"
      by (simp only: F1)
    then have "attach_link c l \<in> set ?CC"
      by simp
    then have p: "attach_link c l \<in> set ?P"
      by (rule inP) simp_all
    have "\<exists>m \<in> set (rows_of (temporal_join ?P ?S)). permno m = permno c \<and> date m = date c
              \<and> (gvkey m = gvkey (attach_link c l) \<or> gvkey m = strip (gvkey (attach_link c l)))
              \<and> notna (be m)"
      using fresh na ne p by (rule joined_fresh_rows(2)) simp_all
    then show "\<exists>r \<in> set ?J. permno r = permno c \<and> date r = date c
                  \<and> (gvkey r = l_gvkey l \<or> gvkey r = strip (l_gvkey l)) \<and> notna (be r)"
      by (simp only: J attach_link_sel)
  qed
  from assms(3) g2 have "?J \<noteq> []"
    by (metis filter.simps(1) length_0_conv)
  then have "rows_of (temporal_join ?P ?S) \<noteq> []"
    unfolding J .
  then have "temporal_join ?P ?S = Inr (rows_of (temporal_join ?P ?S))"
    by (rule rows_of_Inr)
  then have tj: "temporal_join ?P ?S = Inr ?J"
    by (simp only: J)
  from ne have "?P \<noteq> []"
    by (metis filter.simps(1))
  then have cc: "?CC \<noteq> []"
    using inCC by (metis last_in_set list.set(1) empty_iff)
  have "calculate_indicators crsp_data comp_data ccm_link
          = (if ?CC = [] then Inl NoValidLink
             else (case temporal_join ?P ?S of
                     Inl e \<Rightarrow> Inl (JoinFailed e)
                   | Inr merged \<Rightarrow> Inr (final_stats_of (indicators merged))))"
    unfolding calculate_indicators_def Let_def statements_of_def by (rule refl)
  also have "\<dots> = Inr (final_stats_of (indicators ?J))"
    by (simp only: cc tj if_False sum.case)
  finally have g4: "calculate_indicators crsp_data comp_data ccm_link
                      = Inr (final_stats_of (indicators ?J))" .
  have g5: "length (filter (\<lambda>r. permno r = permno c \<and> date r = date c) (indicators ?J)) = ?k"
    by (simp only: indicators_count g2)
  have g6: "\<forall>r \<in> set (indicators ?J). year_month (date r) = year_month (date c) \<longrightarrow>
              n_c r = length (filter (\<lambda>m. year_month (date m) = year_month (date c)) ?J)
              \<and> ?k \<le> n_c r"
  proof (intro ballI impI)
    fix r assume r: "r \<in> set (indicators ?J)" "year_month (date r) = year_month (date c)"
    from r(1) have "(year r, month r) = year_month (date r)"
      by (rule indicators_year_month)
    with r(2) have ym: "(year r, month r) = year_month (date c)"
      by simp
    from r(1) have "n_c r = length (filter (\<lambda>m. year_month (date m) = (year r, month r)) ?J)"
      by (rule n_c_indicators)
    then have n: "n_c r = length (filter (\<lambda>m. year_month (date m) = year_month (date c)) ?J)"
      by (simp only: ym)
    have "length (filter (\<lambda>r. permno r = permno c \<and> date r = date c) ?J)
            \<le> length (filter (\<lambda>m. year_month (date m) = year_month (date c)) ?J)"
      by (rule length_filter_mono) simp
    with n g2 show "n_c r = length (filter (\<lambda>m. year_month (date m) = year_month (date c)) ?J)
              \<and> ?k \<le> n_c r"
      by simp
  qed
  show ?thesis
    apply (intro conjI)
         apply (fact F1)
        apply (fact g2)
       apply (fact g3)
      apply (fact g4)
     apply (fact g5)
    apply (fact g6)
    done
qed

theorem link_rows_counted_witness:
  "length (qualifying (get_ccm_link ex_link) (hd ex_crsp)) = 2
   \<and> length (filter (\<lambda>r. permno r = permno (hd ex_crsp) \<and> date r = date (hd ex_crsp))
               (joined_panel ex_crsp ex_comp_two (get_ccm_link ex_link))) = 2
   \<and> map gvkey (joined_panel ex_crsp ex_comp_two (get_ccm_link ex_link))
       = [''001000'', ''002000'']
   \<and> map n_c (indicators (joined_panel ex_crsp ex_comp_two (get_ccm_link ex_link))) = [2, 2]"
proof -
  have d: "distinct (map (\<lambda>x. (permno x, date x)) ex_crsp)" and m: "hd ex_crsp \<in> set ex_crsp"
    by (simp_all add: ex_crsp_def)
  have q: "length (qualifying (get_ccm_link ex_link) (hd ex_crsp)) = 2"
    by code_simp
  then have ne: "qualifying (get_ccm_link ex_link) (hd ex_crsp) \<noteq> []"
    by auto
  have u: "\<forall>l \<in> set (qualifying (get_ccm_link ex_link) (hd ex_crsp)).
             length (filter (\<lambda>r. gvkey r = l_gvkey l \<and> date r = date (hd ex_crsp))
                       (crsp_ccm_of ex_crsp (get_ccm_link ex_link))) = 1"
    by code_simp
  have f: "\<forall>l \<in> set (qualifying (get_ccm_link ex_link) (hd ex_crsp)).
             has_fresh (365 * 5) (statements_of ex_comp_two) (attach_link (hd ex_crsp) l)"
    by code_simp
  have j: "joined_panel ex_crsp ex_comp_two (get_ccm_link ex_link)
             = rows_of (temporal_join (panel_of ex_crsp ex_link) (statements_of ex_comp_two))"
    by (simp only: joined_panel_def panel_of_def)
  have g: "map gvkey (joined_panel ex_crsp ex_comp_two (get_ccm_link ex_link))
             = [''001000'', ''002000'']"
    unfolding j by (simp add: ex_join_two rows_of_def)
  have n: "map n_c (indicators (joined_panel ex_crsp ex_comp_two (get_ccm_link ex_link))) = [2, 2]"
    unfolding j by (rule ex_n_two)
  from link_rows_counted [OF d m ne u f] q g n show ?thesis
    by simp
qed

lemma ex_join_one:
  "temporal_join (panel_of ex_crsp ex_link) (statements_of ex_comp_one) =
     Inr [\<lparr>permno = 10001, date = 16465, ret = Fin (1 / 100), prc = Fin 10, shrout = Fin 1000,
           gvkey = ''001000'', linktype = ''LU'', linkprim = ''P'', linkdt = Some 10957,
           linkenddt = Some 20088, be = Fin 200, available_date = Some 16251\<rparr>]"
  by code_simp

lemma ex_calculate_one:
  "map (\<lambda>r. (permno r, gvkey r, n_c r))
     (rows_of (calculate_indicators ex_crsp ex_comp_one (get_ccm_link ex_link)))
     = [(10001, ''001000'', 1)]"
proof -
  have ne: "crsp_ccm_of ex_crsp (get_ccm_link ex_link) \<noteq> []"
    using ex_crsp_ccm_rows by auto
  show ?thesis
    unfolding calculate_indicators_def Let_def panel_of_def [symmetric]
      statements_of_def [symmetric]
    by (simp add: ne ex_join_one rows_of_def indicators_single final_stats_of_def dropna_def
        notna_def)
qed

text \<open>
  C10 (as the specification states it) fails: the observation of security 10001 has two
  qualifying links with distinct fundamentals keys, but company 002000 has no
  fundamentals record; the joined panel holds one row for the observation, not two, and
  the \<open>n\<close> of its month is 1.

  The two conditions on the rows are needed as well. In the second example both
  companies of security 10002 have a recent statement, but the row of security 10001
  shares (gvkey, date) with one of its two rows, which \<open>drop_duplicates\<close> removes: the
  joined panel holds one row for security 10002. In the third example both companies
  have an available statement, but the one of company 001000 is older than 1825 days:
  tier 1 succeeds and leaves that row without book equity, so that the joined panel
  holds one row for the observation.
\<close>

theorem link_rows_counterexample:
  "map l_gvkey (qualifying (get_ccm_link ex_link) (hd ex_crsp)) = [''001000'', ''002000'']
   \<and> map (\<lambda>r. (permno r, date r, gvkey r))
       (joined_panel ex_crsp ex_comp_one (get_ccm_link ex_link))
     = [(10001, 16465, ''001000'')]
   \<and> map (\<lambda>r. (permno r, gvkey r, n_c r))
       (rows_of (calculate_indicators ex_crsp ex_comp_one (get_ccm_link ex_link)))
     = [(10001, ''001000'', 1)]
   \<and> map l_gvkey (qualifying (get_ccm_link ex7_link) (ex7_crsp ! 1)) = [''001000'', ''002000'']
   \<and> map (\<lambda>l. has_fresh (365 * 5) (statements_of ex_comp_two) (attach_link (ex7_crsp ! 1) l))
       (qualifying (get_ccm_link ex7_link) (ex7_crsp ! 1)) = [True, True]
   \<and> map (\<lambda>r. (permno r, date r, gvkey r))
       (joined_panel ex7_crsp ex_comp_two (get_ccm_link ex7_link))
     = [(10001, 16465, ''001000''), (10002, 16465, ''002000'')]
   \<and> map (\<lambda>l. length (candidates (statements_of ex8_comp) (attach_link (hd ex_crsp) l)))
       (qualifying (get_ccm_link ex_link) (hd ex_crsp)) = [1, 1]
   \<and> map (\<lambda>r. (permno r, date r, gvkey r))
       (joined_panel ex_crsp ex8_comp (get_ccm_link ex_link))
     = [(10001, 16465, ''002000'')]"
proof -
  have "map l_gvkey (qualifying (get_ccm_link ex_link) (hd ex_crsp)) = [''001000'', ''002000'']"
    by code_simp
  moreover have "map (\<lambda>r. (permno r, date r, gvkey r))
       (joined_panel ex_crsp ex_comp_one (get_ccm_link ex_link))
     = [(10001, 16465, ''001000'')]"
    by code_simp
  moreover have "map l_gvkey (qualifying (get_ccm_link ex7_link) (ex7_crsp ! 1))
      = [''001000'', ''002000'']"
    by code_simp
  moreover have "map (\<lambda>l. has_fresh (365 * 5) (statements_of ex_comp_two)
                          (attach_link (ex7_crsp ! 1) l))
       (qualifying (get_ccm_link ex7_link) (ex7_crsp ! 1)) = [True, True]"
    by code_simp
  moreover have "map (\<lambda>r. (permno r, date r, gvkey r))
       (joined_panel ex7_crsp ex_comp_two (get_ccm_link ex7_link))
     = [(10001, 16465, ''001000''), (10002, 16465, ''002000'')]"
    by code_simp
  moreover have "map (\<lambda>l. length (candidates (statements_of ex8_comp) (attach_link (hd ex_crsp) l)))
       (qualifying (get_ccm_link ex_link) (hd ex_crsp)) = [1, 1]"
    by code_simp
  moreover have "map (\<lambda>r. (permno r, date r, gvkey r))
       (joined_panel ex_crsp ex8_comp (get_ccm_link ex_link))
     = [(10001, 16465, ''002000'')]"
    by code_simp
  ultimately show ?thesis
    using ex_calculate_one by simp
qed

subsection \<open>Percentiles\<close>

lemma fl_insort_Fin: "fl_insort (Fin a) (map Fin bs) = map Fin (insort a bs)"
  by (induction bs) auto

lemma fl_sort_Fin: "fl_sort (map Fin xs) = map Fin (sort xs)"
  by (induction xs) (simp_all add: fl_sort_def fl_insort_Fin)

lemma all_fin_map:
  assumes "list_all is_fin data"
  shows "\<exists>xs. data = map Fin xs"
  using assms
proof (induction data)
  case Nil
  then show ?case by simp
next
  case (Cons a data)
  then obtain xs where "data = map Fin xs"
    by auto
  moreover from Cons.prems obtain x where "a = Fin x"
    by (cases a) (simp_all add: is_fin_def)
  ultimately have "a # data = map Fin (x # xs)"
    by simp
  then show ?case by (rule exI)
qed

lemma floor_index_bound:
  assumes "0 \<le> u" and "u \<le> real (n - 1)" and "0 < n"
  shows "nat \<lfloor>u\<rfloor> < n"
proof -
  from assms(2) have "\<lfloor>u\<rfloor> \<le> int (n - 1)"
    by (simp add: floor_le_iff)
  with assms(3) show ?thesis by linarith
qed

lemma lerp_Fin: "lerp (Fin a) (Fin b) t = Fin (a + (b - a) * t)"
  by (simp add: lerp_def fl_sub_def algebra_simps)

lemma linear_quantile_Fin:
  assumes "ys \<noteq> []" and "0 \<le> q" and "q \<le> 100"
  shows "linear_quantile (map Fin ys) q = Fin (lerp_at ys (real (length ys - 1) * q / 100))"
proof -
  let ?n = "length ys"
  let ?u = "real (?n - 1) * q / 100"
  from assms have n: "0 < ?n" by simp
  from assms(2) have u0: "0 \<le> ?u" by simp
  have "real (?n - 1) * q \<le> real (?n - 1) * 100"
    using assms(3) by (intro mult_left_mono) simp_all
  then have u1: "?u \<le> real (?n - 1)" by simp
  have lo: "nat \<lfloor>?u\<rfloor> < ?n"
    by (rule floor_index_bound [OF u0 u1 n])
  have "?n - 1 < ?n"
    using n by simp
  then have hi: "min (nat \<lfloor>?u\<rfloor> + 1) (?n - 1) < ?n"
    by (rule min.strict_coboundedI2)
  have "linear_quantile (map Fin ys) q =
      lerp (map Fin ys ! nat \<lfloor>?u\<rfloor>) (map Fin ys ! min (nat \<lfloor>?u\<rfloor> + 1) (?n - 1))
        (?u - real (nat \<lfloor>?u\<rfloor>))"
    by (simp add: linear_quantile_def Let_def)
  also have "\<dots> = Fin (lerp_at ys ?u)"
    using lo hi by (simp add: lerp_at_def lerp_Fin)
  finally show ?thesis .
qed

lemma percentile_Fin:
  assumes "xs \<noteq> []" and "0 \<le> q" and "q \<le> 100"
  shows "percentile (map Fin xs) q
           = Inr (Fin (lerp_at (sort xs) (real (length xs - 1) * q / 100)))"
proof -
  from assms(1) have ne: "sort xs \<noteq> []"
    by (metis length_0_conv length_sort)
  from linear_quantile_Fin [OF ne assms(2,3)] assms(1) show ?thesis
    by (simp add: percentile_def fl_sort_Fin)
qed

lemma lerp_at_bounds:
  assumes "sorted ys" and "0 \<le> u" and "u \<le> real (length ys - 1)" and "ys \<noteq> []"
  shows "ys ! nat \<lfloor>u\<rfloor> \<le> lerp_at ys u"
    and "lerp_at ys u \<le> ys ! min (nat \<lfloor>u\<rfloor> + 1) (length ys - 1)"
proof -
  let ?i = "nat \<lfloor>u\<rfloor>" and ?h = "min (nat \<lfloor>u\<rfloor> + 1) (length ys - 1)"
  from assms(4) have n: "0 < length ys" by simp
  have i: "?i < length ys"
    using floor_index_bound [OF assms(2,3) n] .
  then have "?i \<le> ?h" and "?h < length ys"
    by simp_all
  with assms(1) have d: "ys ! ?i \<le> ys ! ?h"
    by (simp add: sorted_nth_mono)
  have "real ?i = of_int \<lfloor>u\<rfloor>"
    using assms(2) by simp
  then have t: "0 \<le> u - real ?i" "u - real ?i \<le> 1"
    by linarith+
  from d t(1) show "ys ! ?i \<le> lerp_at ys u"
    by (simp add: lerp_at_def)
  have "(ys ! ?h - ys ! ?i) * (u - real ?i) \<le> (ys ! ?h - ys ! ?i) * 1"
    using d t(2) by (intro mult_left_mono) simp_all
  then show "lerp_at ys u \<le> ys ! ?h"
    by (simp add: lerp_at_def)
qed

lemma lerp_at_mono:
  assumes "sorted ys" and "ys \<noteq> []" and "0 \<le> u" and "u \<le> v" and "v \<le> real (length ys - 1)"
  shows "lerp_at ys u \<le> lerp_at ys v"
proof -
  let ?i = "nat \<lfloor>u\<rfloor>" and ?j = "nat \<lfloor>v\<rfloor>"
  from assms have v0: "0 \<le> v" and u1: "u \<le> real (length ys - 1)"
    by simp_all
  from assms(2) have n: "0 < length ys" by simp
  have j: "?j < length ys"
    using floor_index_bound [OF v0 assms(5) n] .
  have ij: "?i \<le> ?j"
    using assms(4) by (simp add: floor_mono nat_mono)
  show ?thesis
  proof (cases "?i = ?j")
    case True
    have d: "ys ! ?j \<le> ys ! min (?j + 1) (length ys - 1)"
      using assms(1) j by (simp add: sorted_nth_mono)
    have "(ys ! min (?j + 1) (length ys - 1) - ys ! ?j) * (u - real ?j)
            \<le> (ys ! min (?j + 1) (length ys - 1) - ys ! ?j) * (v - real ?j)"
      using d assms(4) by (intro mult_left_mono) simp_all
    with True show ?thesis
      by (simp add: lerp_at_def)
  next
    case False
    with ij have "?i + 1 \<le> ?j" by simp
    then have "min (?i + 1) (length ys - 1) \<le> ?j" by simp
    with assms(1) j have "ys ! min (?i + 1) (length ys - 1) \<le> ys ! ?j"
      by (simp add: sorted_nth_mono)
    moreover have "lerp_at ys u \<le> ys ! min (?i + 1) (length ys - 1)"
      using assms(1) assms(3) u1 assms(2) by (rule lerp_at_bounds(2))
    moreover have "ys ! ?j \<le> lerp_at ys v"
      using assms(1) v0 assms(5) assms(2) by (rule lerp_at_bounds(1))
    ultimately show ?thesis by linarith
  qed
qed

lemma percentile_mono:
  assumes "xs \<noteq> []" and "0 \<le> p" and "p \<le> q" and "q \<le> 100"
  shows "\<exists>x y. percentile (map Fin xs) p = Inr (Fin x) \<and> percentile (map Fin xs) q = Inr (Fin y)
           \<and> x \<le> y"
proof -
  let ?n = "length xs"
  have "real (?n - 1) * p \<le> real (?n - 1) * q"
    using assms(3) by (intro mult_left_mono) simp_all
  then have uv: "real (?n - 1) * p / 100 \<le> real (?n - 1) * q / 100"
    by simp
  have "real (?n - 1) * q \<le> real (?n - 1) * 100"
    using assms(4) by (intro mult_left_mono) simp_all
  then have v1: "real (?n - 1) * q / 100 \<le> real (length (sort xs) - 1)"
    by simp
  have u0: "0 \<le> real (?n - 1) * p / 100"
    using assms(2) by simp
  from assms(1) have ne: "sort xs \<noteq> []"
    by (metis length_0_conv length_sort)
  have "lerp_at (sort xs) (real (?n - 1) * p / 100) \<le> lerp_at (sort xs) (real (?n - 1) * q / 100)"
    using sorted_sort ne u0 uv v1 by (rule lerp_at_mono)
  moreover have "percentile (map Fin xs) p = Inr (Fin (lerp_at (sort xs) (real (?n - 1) * p / 100)))"
    using assms by (intro percentile_Fin) simp_all
  moreover have "percentile (map Fin xs) q = Inr (Fin (lerp_at (sort xs) (real (?n - 1) * q / 100)))"
    using assms by (intro percentile_Fin) simp_all
  ultimately show ?thesis by blast
qed

lemma collect_Inr: "collect (map (\<lambda>x. Inr (f x)) xs) = Inr (map f xs)"
  by (induction xs) simp_all

lemma stats_of_observations:
  assumes "filter notna grp \<noteq> []"
  shows "\<exists>st. calculate_cross_sectional_stats std_f skew_f kurt_f grp = Inr st
           \<and> pcts st = map (\<lambda>p. (p, linear_quantile (fl_sort (filter notna grp)) (real p)))
                         extended_percentiles"
proof -
  let ?data = "filter notna grp"
  have "map (\<lambda>p. case percentile ?data (real p) of Inl e \<Rightarrow> Inl e | Inr v \<Rightarrow> Inr (p, v))
            extended_percentiles
          = map (\<lambda>p. Inr (p, linear_quantile (fl_sort ?data) (real p))) extended_percentiles"
    using assms by (simp add: percentile_def)
  then have "collect (map (\<lambda>p. case percentile ?data (real p) of Inl e \<Rightarrow> Inl e
                                | Inr v \<Rightarrow> Inr (p, v)) extended_percentiles)
          = Inr (map (\<lambda>p. (p, linear_quantile (fl_sort ?data) (real p))) extended_percentiles)"
    by (simp only: collect_Inr)
  with assms show ?thesis
    by (simp add: calculate_cross_sectional_stats_def Let_def)
qed

lemma stats_of_no_observation:
  assumes "filter notna grp = []"
  shows "calculate_cross_sectional_stats std_f skew_f kurt_f grp
           = Inr \<lparr>count = 0, mean = NaN, std = NaN, min_c = NaN, max_c = NaN, skew = NaN,
                   kurt = NaN, pcts = map (\<lambda>p. (p, NaN)) extended_percentiles\<rparr>"
  using assms by (simp add: calculate_cross_sectional_stats_def)

lemma stats_returns: "\<exists>st. calculate_cross_sectional_stats std_f skew_f kurt_f grp = Inr st"
proof (cases "filter notna grp = []")
  case True
  then show ?thesis
    using stats_of_no_observation by blast
next
  case False
  then show ?thesis
    using stats_of_observations by blast
qed

lemma map_of_keyed: "k \<in> set ks \<Longrightarrow> map_of (map (\<lambda>k. (k, f k)) ks) k = Some (f k)"
  by (induction ks) auto

lemma ladder_bound: "p \<in> set extended_percentiles \<Longrightarrow> p \<le> 100"
  by (auto simp: extended_percentiles_def)

text \<open>
  C9 (as the code has it). For a (year, month) group with at least one observation, all
  of its observations finite, the statistics are computed and the percentile values do
  not decrease along the ladder: for two levels \<open>p \<le> q\<close> of the ladder the value at \<open>p\<close>
  is at most the value at \<open>q\<close>. The values are exact reals; rounding is not modelled.
\<close>

theorem percentile_ladder_monotone:
  assumes "filter notna grp \<noteq> []" and "list_all is_fin (filter notna grp)"
    and "p \<in> set extended_percentiles" and "q \<in> set extended_percentiles" and "p \<le> q"
  shows "\<exists>x y. percentile_of (calculate_cross_sectional_stats std_f skew_f kurt_f grp) p
                 = Some (Fin x)
             \<and> percentile_of (calculate_cross_sectional_stats std_f skew_f kurt_f grp) q
                 = Some (Fin y)
             \<and> x \<le> y \<and> fl_le (Fin x) (Fin y)"
proof -
  from assms(2) obtain xs where xs: "filter notna grp = map Fin xs"
    using all_fin_map by blast
  with assms(1) have ne: "xs \<noteq> []" by auto
  from stats_of_observations [OF assms(1), of std_f skew_f kurt_f] obtain st
    where st: "calculate_cross_sectional_stats std_f skew_f kurt_f grp = Inr st"
      and pc: "pcts st = map (\<lambda>p. (p, linear_quantile (fl_sort (map Fin xs)) (real p)))
                            extended_percentiles"
    by (auto simp: xs)
  have "real q \<le> 100"
    using ladder_bound [OF assms(4)] by simp
  with ne assms(5) obtain x y where "percentile (map Fin xs) (real p) = Inr (Fin x)"
      "percentile (map Fin xs) (real q) = Inr (Fin y)" and xy: "x \<le> y"
    using percentile_mono [of xs "real p" "real q"] by auto
  with ne have "linear_quantile (fl_sort (map Fin xs)) (real p) = Fin x"
      "linear_quantile (fl_sort (map Fin xs)) (real q) = Fin y"
    by (simp_all add: percentile_def)
  with xy show ?thesis
    by (auto simp: percentile_of_def st pc map_of_keyed assms(3,4) fl_le_def notna_def)
qed

theorem percentile_ladder_monotone_witness:
  "percentile_of (calculate_cross_sectional_stats (\<lambda>d. NaN) (\<lambda>d. NaN) (\<lambda>d. NaN)
                   [Fin 3, NaN, Fin 1, Fin 2]) 1 = Some (Fin (51 / 50))
   \<and> percentile_of (calculate_cross_sectional_stats (\<lambda>d. NaN) (\<lambda>d. NaN) (\<lambda>d. NaN)
                   [Fin 3, NaN, Fin 1, Fin 2]) 99 = Some (Fin (149 / 50))
   \<and> (51 / 50 :: real) \<le> 149 / 50"
proof -
  have h: "filter notna [Fin 3, NaN, Fin 1, Fin 2] \<noteq> []"
      "list_all is_fin (filter notna [Fin 3, NaN, Fin 1, Fin 2])"
      "1 \<in> set extended_percentiles" "99 \<in> set extended_percentiles" "(1 :: nat) \<le> 99"
    by (simp_all add: notna_def is_fin_def extended_percentiles_def)
  have v: "percentile_of (calculate_cross_sectional_stats (\<lambda>d. NaN) (\<lambda>d. NaN) (\<lambda>d. NaN)
                  [Fin 3, NaN, Fin 1, Fin 2]) 1 = Some (Fin (51 / 50))"
      "percentile_of (calculate_cross_sectional_stats (\<lambda>d. NaN) (\<lambda>d. NaN) (\<lambda>d. NaN)
                  [Fin 3, NaN, Fin 1, Fin 2]) 99 = Some (Fin (149 / 50))"
    by code_simp+
  from percentile_ladder_monotone [OF h, of "\<lambda>d. NaN" "\<lambda>d. NaN" "\<lambda>d. NaN"] v show ?thesis
    by simp
qed

text \<open>
  C9 (as the specification states it) fails on a group that holds an infinite value. A
  row whose \<open>shrout\<close> is 0 has a market equity of 0, hence \<open>bm = inf\<close>, which is not missing:
  the row stays in the final panel. In a month with the \<open>bm\<close> values 1, inf and 3 the
  sorted sample is 1, 3, inf; the 45th percentile is 14/5, and the 50th falls on the
  value 3 with the neighbour inf, where \<open>3 + (inf - 3) * 0\<close> is missing. The value at 45
  is not at most the value at 50.
\<close>

theorem percentile_infinite_counterexample:
  "map bm (final_stats_of (indicators
      [\<lparr>permno = 10001, date = 16465, ret = Fin (1 / 100), prc = Fin 10, shrout = Fin 0,
        gvkey = ''001000'', linktype = ''LU'', linkprim = ''P'', linkdt = Some 10957,
        linkenddt = Some 20088, be = Fin 200, available_date = Some 16251\<rparr>])) = [PInf]
   \<and> percentile_of (calculate_cross_sectional_stats (\<lambda>d. NaN) (\<lambda>d. NaN) (\<lambda>d. NaN)
                   [Fin 1, PInf, Fin 3]) 45 = Some (Fin (14 / 5))
   \<and> percentile_of (calculate_cross_sectional_stats (\<lambda>d. NaN) (\<lambda>d. NaN) (\<lambda>d. NaN)
                   [Fin 1, PInf, Fin 3]) 50 = Some NaN
   \<and> \<not> fl_le (Fin (14 / 5)) NaN"
proof -
  have "map bm (final_stats_of (indicators
      [\<lparr>permno = 10001, date = 16465, ret = Fin (1 / 100), prc = Fin 10, shrout = Fin 0,
        gvkey = ''001000'', linktype = ''LU'', linkprim = ''P'', linkdt = Some 10957,
        linkenddt = Some 20088, be = Fin 200, available_date = Some 16251\<rparr>])) = [PInf]"
    by (simp add: indicators_single final_stats_of_def dropna_def notna_def inf_of_sign_def)
  moreover have "percentile_of (calculate_cross_sectional_stats (\<lambda>d. NaN) (\<lambda>d. NaN) (\<lambda>d. NaN)
                   [Fin 1, PInf, Fin 3]) 45 = Some (Fin (14 / 5))"
      "percentile_of (calculate_cross_sectional_stats (\<lambda>d. NaN) (\<lambda>d. NaN) (\<lambda>d. NaN)
                   [Fin 1, PInf, Fin 3]) 50 = Some NaN"
      "\<not> fl_le (Fin (14 / 5)) NaN"
    by code_simp+
  ultimately show ?thesis by simp
qed

subsection \<open>Months without observations\<close>

lemma ex_mom_two:
  "map mom (indicators (rows_of (temporal_join (panel_of ex_crsp ex_link) (statements_of ex_comp_two))))
     = [NaN, NaN]"
  apply (simp add: ex_join_two rows_of_def indicators_def)
  apply (simp only: Let_def)
  apply (simp add: mom_at_def rolling_apply_def rolling_window_def shift1_def group_series_def
      group_pos_def is_fin_def prep_value_def notna_def fl_sub_def)
  done

lemma collect_returns:
  assumes "\<forall>x \<in> set xs. \<exists>v. f x = Inr v"
  shows "collect (map f xs) = Inr (map (\<lambda>x. projr (f x)) xs)"
  using assms by (induction xs) auto

lemma monthly_table:
  "monthly_cross_sectional std_f skew_f kurt_f var final
     = Inr (map (\<lambda>k. (k, projr (calculate_cross_sectional_stats std_f skew_f kurt_f
                                  (map var (filter (\<lambda>r. (year r, month r) = k) final)))))
                (sort (unique (map (\<lambda>r. (year r, month r)) final))))"
proof -
  let ?calc = "\<lambda>k. calculate_cross_sectional_stats std_f skew_f kurt_f
                      (map var (filter (\<lambda>r. (year r, month r) = k) final))"
  let ?keys = "sort (unique (map (\<lambda>r. (year r, month r)) final))"
  have "map (\<lambda>k. case ?calc k of Inl e \<Rightarrow> Inl e | Inr st \<Rightarrow> Inr (k, st)) ?keys
          = map (\<lambda>k. Inr (k, projr (?calc k))) ?keys"
  proof (rule map_cong [OF refl])
    fix k
    obtain st where "?calc k = Inr st"
      using stats_returns by blast
    then show "(case ?calc k of Inl e \<Rightarrow> Inl e | Inr st \<Rightarrow> Inr (k, st)) = Inr (k, projr (?calc k))"
      by simp
  qed
  then show ?thesis
    unfolding monthly_cross_sectional_def by (simp only: collect_Inr)
qed

lemma keyed_map_mem: "k \<in> set ks \<Longrightarrow> (k, f k) \<in> set (map (\<lambda>k. (k, f k)) ks)"
  by auto

text \<open>
  C8. When every observation of a variable in a (year, month) of the panel is missing,
  the monthly table is computed and has the row of that month: its count is 0 and its
  mean, std, min, max, skew, kurt and every percentile of the ladder are missing.
\<close>

theorem all_missing_month_kept:
  assumes "r \<in> set final"
    and "\<forall>r' \<in> set final. (year r', month r') = (year r, month r) \<longrightarrow> var r' = NaN"
  shows "\<exists>tab st. monthly_cross_sectional std_f skew_f kurt_f var final = Inr tab
           \<and> ((year r, month r), st) \<in> set tab
           \<and> count st = 0 \<and> mean st = NaN \<and> std st = NaN \<and> min_c st = NaN \<and> max_c st = NaN
           \<and> skew st = NaN \<and> kurt st = NaN
           \<and> pcts st = map (\<lambda>p. (p, NaN)) extended_percentiles"
proof -
  let ?k = "(year r, month r)"
  let ?grp = "map var (filter (\<lambda>r'. (year r', month r') = ?k) final)"
  let ?st = "projr (calculate_cross_sectional_stats std_f skew_f kurt_f ?grp)"
  let ?tab = "map (\<lambda>k. (k, projr (calculate_cross_sectional_stats std_f skew_f kurt_f
                                  (map var (filter (\<lambda>r. (year r, month r) = k) final)))))
                (sort (unique (map (\<lambda>r. (year r, month r)) final)))"
  have tab: "monthly_cross_sectional std_f skew_f kurt_f var final = Inr ?tab"
    by (rule monthly_table)
  from assms(1) have "?k \<in> set (sort (unique (map (\<lambda>r. (year r, month r)) final)))"
    by (simp add: set_unique)
  then have mem: "(?k, ?st) \<in> set ?tab"
    by (rule keyed_map_mem)
  from assms(2) have "filter notna ?grp = []"
    by (auto simp: filter_empty_conv notna_def)
  then have "calculate_cross_sectional_stats std_f skew_f kurt_f ?grp
           = Inr \<lparr>count = 0, mean = NaN, std = NaN, min_c = NaN, max_c = NaN, skew = NaN,
                   kurt = NaN, pcts = map (\<lambda>p. (p, NaN)) extended_percentiles\<rparr>"
    by (rule stats_of_no_observation)
  then have "count ?st = 0 \<and> mean ?st = NaN \<and> std ?st = NaN \<and> min_c ?st = NaN \<and> max_c ?st = NaN
           \<and> skew ?st = NaN \<and> kurt ?st = NaN
           \<and> pcts ?st = map (\<lambda>p. (p, NaN)) extended_percentiles"
    by simp
  with tab mem show ?thesis by blast
qed

theorem all_missing_month_kept_witness:
  "\<exists>tab st. monthly_cross_sectional (\<lambda>d. NaN) (\<lambda>d. NaN) (\<lambda>d. NaN) mom
              (indicators (rows_of (temporal_join (panel_of ex_crsp ex_link)
                                      (statements_of ex_comp_two)))) = Inr tab
        \<and> ((2015, 1), st) \<in> set tab
        \<and> count st = 0 \<and> mean st = NaN \<and> std st = NaN \<and> min_c st = NaN \<and> max_c st = NaN
        \<and> skew st = NaN \<and> kurt st = NaN
        \<and> pcts st = map (\<lambda>p. (p, NaN)) extended_percentiles"
proof -
  let ?F = "indicators (rows_of (temporal_join (panel_of ex_crsp ex_link) (statements_of ex_comp_two)))"
  have len: "length ?F = 2"
    using ex_n_two [THEN arg_cong, of length] by simp
  then have ne: "?F \<noteq> []" by auto
  then have h: "hd ?F \<in> set ?F" by simp
  have "map mom ?F = [NaN, NaN]"
    by (rule ex_mom_two)
  then have "set (map mom ?F) = {NaN}" by simp
  then have m: "\<forall>r' \<in> set ?F. (year r', month r') = (year (hd ?F), month (hd ?F)) \<longrightarrow> mom r' = NaN"
    by auto
  have "map (\<lambda>r. (year r, month r)) ?F = [(2015, 1), (2015, 1)]"
    using ex_indicators_two [THEN arg_cong, of "map (\<lambda>q. (fst (snd q), fst (snd (snd q))))"]
    by (simp add: comp_def)
  with ne have ym: "(year (hd ?F), month (hd ?F)) = (2015, 1)"
    by (cases ?F) auto
  from all_missing_month_kept [OF h m, of "\<lambda>d. NaN" "\<lambda>d. NaN" "\<lambda>d. NaN"] ym
  show ?thesis by simp
qed

end
